theory Spec2Isabelle
  imports Complex_Main "HOL-Library.Char_ord" "HOL-Library.List_Lexorder"
begin

section \<open>Floating-point values\<close>

text \<open>
  Every Python \<open>float\<close> and numpy \<open>float64\<close> of the program is a \<open>float64\<close> here: a
  finite real, one of the two infinities, or NaN. The special values follow IEEE 754
  (an invalid operation gives NaN, a division of a non-zero finite value by zero gives
  an infinity, NaN compares false with everything). The operations \<open>fadd\<close>,
  \<open>fsub\<close>, \<open>fmul\<close> and \<open>fdiv\<close> give the exact result on finite values, without
  the rounding and the overflow of float64: they are the program's arithmetic read over
  the reals. The rounded operations, \<open>fadd64\<close> to \<open>fdiv64\<close>, follow at the end of
  this section. The sign of zero is not modelled, and a zero divisor
  counts as \<open>+0\<close> (the zeros the program divides by come from \<open>x - x\<close> and
  \<open>x + (-x)\<close>, which round-to-nearest gives as \<open>+0\<close>). numpy signals invalid
  operations and divisions by zero by a warning, never by an exception, so none of
  these operations has an error branch.
\<close>

datatype float64 = Fin real | PInf | NInf | NaN

fun fneg :: "float64 \<Rightarrow> float64" where
  "fneg (Fin a) = Fin (- a)"
| "fneg PInf = NInf"
| "fneg NInf = PInf"
| "fneg NaN = NaN"

fun fadd :: "float64 \<Rightarrow> float64 \<Rightarrow> float64" where
  "fadd NaN _ = NaN"
| "fadd _ NaN = NaN"
| "fadd PInf NInf = NaN"
| "fadd NInf PInf = NaN"
| "fadd PInf _ = PInf"
| "fadd _ PInf = PInf"
| "fadd NInf _ = NInf"
| "fadd _ NInf = NInf"
| "fadd (Fin a) (Fin b) = Fin (a + b)"

definition fsub :: "float64 \<Rightarrow> float64 \<Rightarrow> float64" where
  "fsub a b = fadd a (fneg b)"

text \<open>An infinity times, or divided by, a finite value: the sign of the finite one decides.\<close>

fun inf_signed :: "bool \<Rightarrow> float64" where
  "inf_signed True = PInf"
| "inf_signed False = NInf"

fun fmul :: "float64 \<Rightarrow> float64 \<Rightarrow> float64" where
  "fmul NaN _ = NaN"
| "fmul _ NaN = NaN"
| "fmul (Fin a) (Fin b) = Fin (a * b)"
| "fmul (Fin a) PInf = (if a = 0 then NaN else inf_signed (0 < a))"
| "fmul (Fin a) NInf = (if a = 0 then NaN else inf_signed (a < 0))"
| "fmul PInf (Fin b) = (if b = 0 then NaN else inf_signed (0 < b))"
| "fmul NInf (Fin b) = (if b = 0 then NaN else inf_signed (b < 0))"
| "fmul PInf PInf = PInf"
| "fmul PInf NInf = NInf"
| "fmul NInf PInf = NInf"
| "fmul NInf NInf = PInf"

fun fdiv :: "float64 \<Rightarrow> float64 \<Rightarrow> float64" where
  "fdiv NaN _ = NaN"
| "fdiv _ NaN = NaN"
| "fdiv (Fin a) (Fin b) =
     (if b = 0 then (if a = 0 then NaN else inf_signed (0 < a)) else Fin (a / b))"
| "fdiv (Fin a) PInf = Fin 0"
| "fdiv (Fin a) NInf = Fin 0"
| "fdiv PInf (Fin b) = inf_signed (0 \<le> b)"
| "fdiv NInf (Fin b) = inf_signed (b < 0)"
| "fdiv PInf PInf = NaN"
| "fdiv PInf NInf = NaN"
| "fdiv NInf PInf = NaN"
| "fdiv NInf NInf = NaN"

text \<open>The comparisons \<open><\<close>, \<open><=\<close> and \<open>==\<close>: false as soon as one side is NaN.\<close>

fun flt :: "float64 \<Rightarrow> float64 \<Rightarrow> bool" where
  "flt NaN _ = False"
| "flt _ NaN = False"
| "flt (Fin a) (Fin b) = (a < b)"
| "flt NInf NInf = False"
| "flt NInf _ = True"
| "flt _ NInf = False"
| "flt PInf _ = False"
| "flt _ PInf = True"

definition feq :: "float64 \<Rightarrow> float64 \<Rightarrow> bool" where
  "feq a b = (a \<noteq> NaN \<and> b \<noteq> NaN \<and> a = b)"

definition fle :: "float64 \<Rightarrow> float64 \<Rightarrow> bool" where
  "fle a b = (flt a b \<or> feq a b)"

definition fgt :: "float64 \<Rightarrow> float64 \<Rightarrow> bool" where
  "fgt a b = flt b a"

text \<open>\<open>np.log10\<close> and \<open>10 ** x\<close> on one value.\<close>

fun flog10 :: "float64 \<Rightarrow> float64" where
  "flog10 NaN = NaN"
| "flog10 PInf = PInf"
| "flog10 NInf = NaN"
| "flog10 (Fin a) = (if a < 0 then NaN else if a = 0 then NInf else Fin (log 10 a))"

fun fpow10 :: "float64 \<Rightarrow> float64" where
  "fpow10 NaN = NaN"
| "fpow10 PInf = PInf"
| "fpow10 NInf = Fin 0"
| "fpow10 (Fin a) = Fin (10 powr a)"

text \<open>
  The rounding of IEEE 754, for the places where it decides. \<open>round64\<close> takes a real
  to the nearest float64, ties to the even significand: 53 significant bits, no
  exponent below the subnormal one, and an infinity from \<open>2 ^ 1024\<close> on. The float64
  sum, difference, product and quotient of two float64 values are the exact ones,
  rounded.
\<close>

definition round_half_even :: "'a::floor_ceiling \<Rightarrow> int" where
  "round_half_even x =
     (let f = \<lfloor>x\<rfloor>; r = x - of_int f
      in if r < 1 / 2 then f else if 1 / 2 < r then f + 1 else if even f then f else f + 1)"

definition pow2r :: "int \<Rightarrow> real" where
  "pow2r e = (if 0 \<le> e then 2 ^ nat e else 1 / 2 ^ nat (- e))"

definition round64 :: "real \<Rightarrow> float64" where
  "round64 x =
     (if x = 0 then Fin 0
      else (let e = max \<lfloor>log 2 \<bar>x\<bar>\<rfloor> (- 1022);
                m = round_half_even (\<bar>x\<bar> * pow2r (52 - e));
                v = of_int m * pow2r (e - 52)
            in if 2 ^ 1024 \<le> v then inf_signed (0 < x)
               else Fin (if 0 < x then v else - v)))"

fun rounded :: "float64 \<Rightarrow> float64" where
  "rounded (Fin v) = round64 v"
| "rounded PInf = PInf"
| "rounded NInf = NInf"
| "rounded NaN = NaN"

definition fadd64 :: "float64 \<Rightarrow> float64 \<Rightarrow> float64" where
  "fadd64 a b = rounded (fadd a b)"



definition fdiv64 :: "float64 \<Rightarrow> float64 \<Rightarrow> float64" where
  "fdiv64 a b = rounded (fdiv a b)"

section \<open>Sample streams, the hand-off queue and the averaging accumulator\<close>

text \<open>
  The \<open>SampleStream\<close> message of the instrument (one acquired waveform and its
  acquisition metadata), with the fields the program reads.
\<close>

record SampleStream =
  sample :: "float64 list"
  sample_spacing_ps :: float64
  pulse_period_ns :: float64
  ref_50ohm :: float64
  ref_unit_amp :: float64

datatype py_error =
    Full
  | Empty
  | ValueError string
  | AttributeError string
  | KeyError string
  | IndexError
  | RpcError

text \<open>
  \<open>queue.Queue(maxsize=10)\<close>, as the list of its items, oldest first.
  \<open>put(item, block=False)\<close> raises \<open>queue.Full\<close> when the queue holds \<open>maxsize\<close> items;
  \<open>get_nowait()\<close> raises \<open>queue.Empty\<close> on an empty queue.
\<close>

definition maxsize :: nat where
  "maxsize = 10"

definition put_nowait :: "'a list \<Rightarrow> 'a \<Rightarrow> py_error + 'a list" where
  "put_nowait q item = (if maxsize \<le> length q then Inl Full else Inr (q @ [item]))"

definition get_nowait :: "'a list \<Rightarrow> py_error + ('a \<times> 'a list)" where
  "get_nowait q = (case q of [] \<Rightarrow> Inl Empty | item # rest \<Rightarrow> Inr (item, rest))"

text \<open>
  The producer's \<open>try: put(item, block=False)\<close> with \<open>except queue.Full: pass\<close>:
  the queue afterwards.
\<close>

definition put_dropping :: "'a list \<Rightarrow> 'a \<Rightarrow> 'a list" where
  "put_dropping q item = (case put_nowait q item of Inl e \<Rightarrow> q | Inr q' \<Rightarrow> q')"

text \<open>
  \<open>np.array(a) + np.array(b)\<close> on two one-dimensional arrays: elementwise on equal
  lengths, an array of length one is broadcast, any other pair of lengths raises
  ValueError.
\<close>

definition np_add :: "float64 list \<Rightarrow> float64 list \<Rightarrow> py_error + float64 list" where
  "np_add a b =
     (if length a = length b then Inr (map2 fadd a b)
      else (case b of
              [y] \<Rightarrow> Inr (map (\<lambda>x. fadd x y) a)
            | _ \<Rightarrow> (case a of
                      [x] \<Rightarrow> Inr (map (\<lambda>y. fadd x y) b)
                    | _ \<Rightarrow> Inl (ValueError ''operands could not be broadcast together''))))"

text \<open>\<open>np.array(a) / n\<close> for a Python int \<open>n\<close>.\<close>

definition np_div_count :: "float64 list \<Rightarrow> nat \<Rightarrow> float64 list" where
  "np_div_count a n = map (\<lambda>x. fdiv x (Fin (real n))) a"

text \<open>
  The fields of \<open>AppWindow\<close> that the sample-stream thread and the display controls
  share. \<open>rx_count_for_avg_calc\<close> is the local variable of \<open>_radium_sample_stream\<close>
  that lives across the iterations of its loop. The buffered message and the queued
  messages are values here: the program queues the buffered object itself, but after a
  \<open>put\<close> the count is 0, so the next message replaces the buffer and the queued
  object is never written again.
\<close>

record AppWindow =
  connected_flag :: bool
  paused :: bool
  buffered_sample_stream :: "SampleStream option"
  sample_stream_queue :: "SampleStream list"
  waveform_average_count :: nat
  rx_count_for_avg_calc :: nat
  last_displayed_sample_stream :: "SampleStream option"
  sample_stream_count :: nat

text \<open>
  \<open>_clear_sample_stream_queue\<close>: pop until the queue is empty.
\<close>

fun clear_sample_stream_queue :: "'a list \<Rightarrow> 'a list" where
  "clear_sample_stream_queue [] = []"
| "clear_sample_stream_queue (item # rest) = clear_sample_stream_queue rest"

text \<open>
  The test of line 747: the message has the sample spacing and the pulse period of the
  buffer (two \<open>==\<close> on floats).
\<close>

definition same_configuration :: "SampleStream \<Rightarrow> SampleStream \<Rightarrow> bool" where
  "same_configuration buf next_msg =
     (feq (sample_spacing_ps buf) (sample_spacing_ps next_msg)
      \<and> feq (pulse_period_ns buf) (pulse_period_ns next_msg))"

text \<open>
  The accumulation of one received message (lines 743 to 752 of \<open>pymtdr.py\<close>), under
  the lock: a fresh start when nothing is buffered or the count is 0; the elementwise
  sum and one more count when the message has the buffer's sample spacing and pulse
  period; otherwise the message becomes the buffer and the count is set to 0.
\<close>

definition accumulate :: "AppWindow \<Rightarrow> SampleStream \<Rightarrow> py_error + AppWindow" where
  "accumulate st next_msg =
     (case buffered_sample_stream st of
        None \<Rightarrow> Inr (st\<lparr>buffered_sample_stream := Some next_msg, rx_count_for_avg_calc := 1\<rparr>)
      | Some buf \<Rightarrow>
          if rx_count_for_avg_calc st = 0
          then Inr (st\<lparr>buffered_sample_stream := Some next_msg, rx_count_for_avg_calc := 1\<rparr>)
          else if same_configuration buf next_msg
          then (case np_add (sample buf) (sample next_msg) of
                  Inl e \<Rightarrow> Inl e
                | Inr s \<Rightarrow>
                    Inr (st\<lparr>buffered_sample_stream := Some (buf\<lparr>sample := s\<rparr>),
                            rx_count_for_avg_calc := rx_count_for_avg_calc st + 1\<rparr>))
          else Inr (st\<lparr>buffered_sample_stream := Some next_msg, rx_count_for_avg_calc := 0\<rparr>))"

text \<open>
  The emission (lines 754 to 762): when the count equals the averaging factor, the
  buffer is divided by the count, the count is reset, and the buffer is put on the
  queue without blocking; \<open>queue.Full\<close> is caught and ignored. A buffer that is
  \<open>None\<close> here would raise AttributeError; \<open>accumulate\<close> always leaves a buffer.
\<close>

definition emit_average :: "AppWindow \<Rightarrow> py_error + AppWindow" where
  "emit_average st =
     (if rx_count_for_avg_calc st = waveform_average_count st
      then (case buffered_sample_stream st of
              None \<Rightarrow> Inl (AttributeError ''sample'')
            | Some buf \<Rightarrow>
                let avg = buf\<lparr>sample := np_div_count (sample buf) (rx_count_for_avg_calc st)\<rparr>
                in Inr (st\<lparr>buffered_sample_stream := Some avg,
                           rx_count_for_avg_calc := 0,
                           sample_stream_queue := put_dropping (sample_stream_queue st) avg\<rparr>))
      else Inr st)"

text \<open>
  One iteration of the loop of \<open>_radium_sample_stream\<close> on the received message
  (the logging of the input rate aside): nothing is done while the display is paused.
\<close>

definition sample_stream_step :: "AppWindow \<Rightarrow> SampleStream \<Rightarrow> py_error + AppWindow" where
  "sample_stream_step st next_msg =
     (if paused st then Inr st
      else (case accumulate st next_msg of
              Inl e \<Rightarrow> Inl e
            | Inr st' \<Rightarrow> emit_average st'))"

text \<open>
  The loop on the messages the listener yields, while the connection flag is set. An
  exception other than \<open>queue.Full\<close> ends the thread.
\<close>

text \<open>
  \<open>_pop_sample_stream_queue\<close>, the consumer: while the display is not paused, pop the
  next message, make it the displayed one and count it, until the queue is empty. The
  second component lists the popped messages in the order they were popped (each one is
  drawn by \<open>_update_scatter_plot\<close>, the last one stays on the display).
\<close>

function pop_sample_stream_queue :: "AppWindow \<Rightarrow> AppWindow \<times> SampleStream list" where
  "pop_sample_stream_queue st =
     (if paused st then (st, [])
      else (case get_nowait (sample_stream_queue st) of
              Inl e \<Rightarrow> (st, [])
            | Inr (item, rest) \<Rightarrow>
                (let (st', popped) =
                       pop_sample_stream_queue
                         (st\<lparr>sample_stream_queue := rest,
                             last_displayed_sample_stream := Some item,
                             sample_stream_count := sample_stream_count st + 1\<rparr>)
                 in (st', item # popped))))"
  by pat_completeness auto
termination
  by (relation "measure (\<lambda>st. length (sample_stream_queue st))")
     (auto simp: get_nowait_def split: list.splits)

declare pop_sample_stream_queue.simps [simp del]

fun radium_sample_stream :: "AppWindow \<Rightarrow> SampleStream list \<Rightarrow> py_error + AppWindow" where
  "radium_sample_stream st [] = Inr st"
| "radium_sample_stream st (next_msg # msgs) =
     (if \<not> connected_flag st then Inr st
      else (case sample_stream_step st next_msg of
              Inl e \<Rightarrow> Inl e
            | Inr st' \<Rightarrow> radium_sample_stream st' msgs))"

text \<open>
  \<open>_waveform_average_map\<close>, the averaging factors the combo box offers, and
  \<open>_on_waveform_average_changed\<close>: under the lock, the factor becomes the one of the
  combo box's current text and the buffer is dropped. The combo box holds the keys of
  the map only; any other text would raise KeyError.
\<close>

definition waveform_average_map :: "(string \<times> nat) list" where
  "waveform_average_map =
     [(''No Averaging'', 1), (''x2 Averaging'', 2), (''x4 Averaging'', 4),
      (''x8 Averaging'', 8), (''x16 Averaging'', 16), (''x32 Averaging'', 32),
      (''x64 Averaging'', 64), (''x128 Averaging'', 128)]"

definition on_waveform_average_changed :: "AppWindow \<Rightarrow> string \<Rightarrow> py_error + AppWindow" where
  "on_waveform_average_changed st current_text =
     (case map_of waveform_average_map current_text of
        None \<Rightarrow> Inl (KeyError current_text)
      | Some n \<Rightarrow> Inr (st\<lparr>waveform_average_count := n, buffered_sample_stream := None\<rparr>))"

text \<open>
  \<open>_on_play_pause_plot_updates\<close>: nothing when disconnected; otherwise the pause flag
  is toggled, and on pausing the queue is cleared. On resuming the program asks the
  instrument for its state and updates the controls from it, which touches none of these
  fields.
\<close>

definition on_play_pause_plot_updates :: "AppWindow \<Rightarrow> AppWindow" where
  "on_play_pause_plot_updates st =
     (if \<not> connected_flag st then st
      else (let st' = st\<lparr>paused := \<not> paused st\<rparr>
            in if paused st'
               then st'\<lparr>sample_stream_queue := clear_sample_stream_queue (sample_stream_queue st')\<rparr>
               else st'))"

section \<open>The display transform\<close>

datatype DisplayMode = S_N | IMPEDANCE | IMPEDANCE_LOG_SCALE | RHO

text \<open>
  The array expressions of \<open>_convert_y_to\<close>, each elementwise with the scalars
  broadcast: \<open>(sample_array - ref_50ohm)/ref_unit_amp\<close>,
  \<open>50*(1 + reflection_coeff)/(1 - reflection_coeff)\<close>,
  \<open>(sample_array - 50)/(sample_array + 50)\<close>,
  \<open>reflection_coeff*ref_unit_amp + ref_50ohm\<close>, \<open>10 ** sample_array\<close> and
  \<open>np.log10(impedance)\<close>.
\<close>

definition sn_to_reflection_coeff :: "float64 list \<Rightarrow> float64 \<Rightarrow> float64 \<Rightarrow> float64 list" where
  "sn_to_reflection_coeff sample_array r50 amp = map (\<lambda>s. fdiv (fsub s r50) amp) sample_array"

definition reflection_coeff_to_impedance :: "float64 list \<Rightarrow> float64 list" where
  "reflection_coeff_to_impedance reflection_coeff =
     map (\<lambda>rc. fdiv (fmul (Fin 50) (fadd (Fin 1) rc)) (fsub (Fin 1) rc)) reflection_coeff"

definition impedance_to_reflection_coeff :: "float64 list \<Rightarrow> float64 list" where
  "impedance_to_reflection_coeff sample_array =
     map (\<lambda>z. fdiv (fsub z (Fin 50)) (fadd z (Fin 50))) sample_array"

definition reflection_coeff_to_sn :: "float64 list \<Rightarrow> float64 \<Rightarrow> float64 \<Rightarrow> float64 list" where
  "reflection_coeff_to_sn reflection_coeff r50 amp =
     map (\<lambda>rc. fadd (fmul rc amp) r50) reflection_coeff"

definition np_pow10 :: "float64 list \<Rightarrow> float64 list" where
  "np_pow10 sample_array = map fpow10 sample_array"

definition np_log10 :: "float64 list \<Rightarrow> float64 list" where
  "np_log10 impedance = map flog10 impedance"

text \<open>
  \<open>impedance[impedance <= 0] = np.nan\<close>, and for a scalar
  \<open>if impedance <= 0: impedance = np.nan\<close>: the values that compare \<open><= 0\<close> become NaN.
  On the way from the impedance to its logarithm the program masks the array it was
  given, in place; its callers pass a fresh array there, so the model returns the
  masked array and keeps no store.
\<close>

definition mask_nonpositive :: "float64 list \<Rightarrow> float64 list" where
  "mask_nonpositive impedance = map (\<lambda>z. if fle z (Fin 0) then NaN else z) impedance"

text \<open>
  \<open>_convert_y_to\<close>, branch by branch. A scalar argument (a horizontal cursor's
  position) is an array of one value: the program treats arrays and scalars by the same
  expressions, and by the two forms of the mask above.
\<close>

fun convert_y_to ::
  "float64 list \<Rightarrow> DisplayMode \<Rightarrow> DisplayMode \<Rightarrow> float64 \<Rightarrow> float64 \<Rightarrow> float64 list" where
  "convert_y_to sample_array S_N RHO r50 amp = sn_to_reflection_coeff sample_array r50 amp"
| "convert_y_to sample_array S_N IMPEDANCE r50 amp =
     reflection_coeff_to_impedance (sn_to_reflection_coeff sample_array r50 amp)"
| "convert_y_to sample_array S_N IMPEDANCE_LOG_SCALE r50 amp =
     np_log10 (mask_nonpositive
       (reflection_coeff_to_impedance (sn_to_reflection_coeff sample_array r50 amp)))"
| "convert_y_to sample_array S_N S_N r50 amp = sample_array"
| "convert_y_to sample_array RHO S_N r50 amp = reflection_coeff_to_sn sample_array r50 amp"
| "convert_y_to sample_array RHO IMPEDANCE r50 amp =
     reflection_coeff_to_impedance
       (sn_to_reflection_coeff (reflection_coeff_to_sn sample_array r50 amp) r50 amp)"
| "convert_y_to sample_array RHO IMPEDANCE_LOG_SCALE r50 amp =
     np_log10 (mask_nonpositive
       (reflection_coeff_to_impedance
         (sn_to_reflection_coeff (reflection_coeff_to_sn sample_array r50 amp) r50 amp)))"
| "convert_y_to sample_array RHO RHO r50 amp = sample_array"
| "convert_y_to sample_array IMPEDANCE S_N r50 amp =
     reflection_coeff_to_sn (impedance_to_reflection_coeff sample_array) r50 amp"
| "convert_y_to sample_array IMPEDANCE RHO r50 amp = impedance_to_reflection_coeff sample_array"
| "convert_y_to sample_array IMPEDANCE IMPEDANCE_LOG_SCALE r50 amp =
     np_log10 (mask_nonpositive sample_array)"
| "convert_y_to sample_array IMPEDANCE IMPEDANCE r50 amp = sample_array"
| "convert_y_to sample_array IMPEDANCE_LOG_SCALE S_N r50 amp =
     reflection_coeff_to_sn (impedance_to_reflection_coeff (np_pow10 sample_array)) r50 amp"
| "convert_y_to sample_array IMPEDANCE_LOG_SCALE RHO r50 amp =
     impedance_to_reflection_coeff (np_pow10 sample_array)"
| "convert_y_to sample_array IMPEDANCE_LOG_SCALE IMPEDANCE r50 amp = np_pow10 sample_array"
| "convert_y_to sample_array IMPEDANCE_LOG_SCALE IMPEDANCE_LOG_SCALE r50 amp = sample_array"



section \<open>The cursors\<close>

text \<open>
  \<open>np.searchsorted(a, v)\<close> with the default \<open>side='left'\<close>, on an array sorted in
  ascending order as numpy requires (the x-array of a waveform is): the index \<open>i\<close>
  with \<open>a[i-1] < v <= a[i]\<close>, that is the number of leading elements below \<open>v\<close>.
  numpy orders NaN after every other value.
\<close>

definition np_less :: "float64 \<Rightarrow> float64 \<Rightarrow> bool" where
  "np_less a b = (flt a b \<or> (b = NaN \<and> a \<noteq> NaN))"

definition np_searchsorted :: "float64 list \<Rightarrow> float64 \<Rightarrow> nat" where
  "np_searchsorted a v = length (takeWhile (\<lambda>x. np_less x v) a)"

text \<open>
  \<open>y_at_x\<close>, the helper of \<open>_update_vcursor_readouts\<close>: the value of the displayed
  waveform at the position \<open>xq\<close> of a vertical cursor, \<open>None\<close> when nothing is
  displayed. The arrays are \<open>_last_x_as_array\<close> and \<open>_last_y_as_array\<close>; reading
  the y-array past its end raises IndexError. Python's \<open>10 ** v\<close> raises
  OverflowError when a finite result exceeds the range of a float; finite results are
  exact here, so that case is outside the model.
\<close>

definition y_at_x ::
  "float64 list option \<Rightarrow> float64 list option \<Rightarrow> bool \<Rightarrow> float64 \<Rightarrow> py_error + float64 option" where
  "y_at_x last_x_as_array last_y_as_array y_axis_is_in_log_scale xq =
     (case last_x_as_array of
        None \<Rightarrow> Inr None
      | Some xs \<Rightarrow>
          (case last_y_as_array of
             None \<Rightarrow> Inr None
           | Some ys \<Rightarrow>
               if length xs = 0 then Inr None
               else
                 let idx = np_searchsorted xs xq in
                 if idx \<le> 0 then (if ys = [] then Inl IndexError else Inr (Some (ys ! 0)))
                 else if idx \<ge> length xs
                 then (if ys = [] then Inl IndexError else Inr (Some (last ys)))
                 else if length ys \<le> idx then Inl IndexError
                 else
                   let x0 = xs ! (idx - 1); x1 = xs ! idx;
                       y0 = ys ! (idx - 1); y1 = ys ! idx
                   in if feq x1 x0 then Inr (Some y0)
                      else
                        let t = fdiv (fsub xq x0) (fsub x1 x0);
                            v = fadd y0 (fmul t (fsub y1 y0))
                        in if y_axis_is_in_log_scale then Inr (Some (fpow10 v))
                           else Inr (Some v)))"

text \<open>
  A cursor line of the plot: its position and whether it is shown. \<open>value()\<close> and
  \<open>setValue\<close> read and write \<open>line_value\<close>. The plotting library's own limit on
  dragging (\<open>setBounds\<close>) is left out; it moves a line outside the bounds to the nearer
  bound, which the explicit tests that follow it in \<open>_update_scatter_plot\<close> do as well.
\<close>

record InfiniteLine =
  line_value :: float64
  visible :: bool

datatype CursorBehaviorWhenClipped = USE_MIN | USE_MAX

text \<open>
  \<open>np.min\<close> and \<open>np.max\<close> (a NaN in the array gives NaN), \<open>np.nanmin\<close> and
  \<open>np.nanmax\<close> (the NaNs are skipped; NaN when nothing else is left); all four raise
  ValueError on an empty array.
\<close>

definition fmin :: "float64 \<Rightarrow> float64 \<Rightarrow> float64" where
  "fmin a b = (if a = NaN \<or> b = NaN then NaN else if flt b a then b else a)"

definition fmax :: "float64 \<Rightarrow> float64 \<Rightarrow> float64" where
  "fmax a b = (if a = NaN \<or> b = NaN then NaN else if flt a b then b else a)"

definition np_min :: "float64 list \<Rightarrow> py_error + float64" where
  "np_min a = (case a of
                 [] \<Rightarrow> Inl (ValueError ''zero-size array to reduction operation'')
               | x # rest \<Rightarrow> Inr (foldl fmin x rest))"

definition np_max :: "float64 list \<Rightarrow> py_error + float64" where
  "np_max a = (case a of
                 [] \<Rightarrow> Inl (ValueError ''zero-size array to reduction operation'')
               | x # rest \<Rightarrow> Inr (foldl fmax x rest))"

definition np_nanmin :: "float64 list \<Rightarrow> py_error + float64" where
  "np_nanmin a = (case a of
                    [] \<Rightarrow> Inl (ValueError ''zero-size array to reduction operation'')
                  | _ \<Rightarrow> (case filter (\<lambda>x. x \<noteq> NaN) a of
                            [] \<Rightarrow> Inr NaN
                          | x # rest \<Rightarrow> Inr (foldl fmin x rest)))"

definition np_nanmax :: "float64 list \<Rightarrow> py_error + float64" where
  "np_nanmax a = (case a of
                    [] \<Rightarrow> Inl (ValueError ''zero-size array to reduction operation'')
                  | _ \<Rightarrow> (case filter (\<lambda>x. x \<noteq> NaN) a of
                            [] \<Rightarrow> Inr NaN
                          | x # rest \<Rightarrow> Inr (foldl fmax x rest)))"

text \<open>
  The two \<open>if when_clipped == ...\<close> of \<open>_toggle_cursor\<close>: the bound a clipped cursor
  is moved to.
\<close>

fun set_clipped :: "CursorBehaviorWhenClipped \<Rightarrow> float64 \<Rightarrow> float64 \<Rightarrow> InfiniteLine \<Rightarrow> InfiniteLine" where
  "set_clipped USE_MIN lo hi cursor = cursor\<lparr>line_value := lo\<rparr>"
| "set_clipped USE_MAX lo hi cursor = cursor\<lparr>line_value := hi\<rparr>"

text \<open>
  \<open>_toggle_cursor\<close>: the cursor is shown or hidden; a cursor that is switched on while
  a waveform is displayed and stands outside the range of the x-array (of the y-array,
  NaNs aside, for a horizontal cursor) is moved to the bound its \<open>when_clipped\<close>
  names. The readout labels are not modelled.
\<close>

definition toggle_cursor ::
  "InfiniteLine \<Rightarrow> bool \<Rightarrow> bool \<Rightarrow> CursorBehaviorWhenClipped \<Rightarrow>
   float64 list option \<Rightarrow> float64 list option \<Rightarrow> py_error + InfiniteLine" where
  "toggle_cursor cursor vertical state when_clipped last_x_as_array last_y_as_array =
     (let cursor = cursor\<lparr>visible := state\<rparr> in
      if vertical then
        (case last_x_as_array of
           None \<Rightarrow> Inr cursor
         | Some xs \<Rightarrow>
             if \<not> state then Inr cursor
             else (case np_min xs of
                     Inl e \<Rightarrow> Inl e
                   | Inr min_x \<Rightarrow>
                       (case np_max xs of
                          Inl e \<Rightarrow> Inl e
                        | Inr max_x \<Rightarrow>
                            let pos = line_value cursor in
                            if flt pos min_x \<or> fgt pos max_x
                            then Inr (set_clipped when_clipped min_x max_x cursor)
                            else Inr cursor)))
      else
        (case last_y_as_array of
           None \<Rightarrow> Inr cursor
         | Some ys \<Rightarrow>
             if \<not> state then Inr cursor
             else (case np_nanmin ys of
                     Inl e \<Rightarrow> Inl e
                   | Inr min_y \<Rightarrow>
                       (case np_nanmax ys of
                          Inl e \<Rightarrow> Inl e
                        | Inr max_y \<Rightarrow>
                            let pos = line_value cursor in
                            if flt pos min_y \<or> fgt pos max_y \<or> pos = NaN
                            then Inr (set_clipped when_clipped min_y max_y cursor)
                            else Inr cursor))))"

text \<open>
  The handlers connected to the check boxes of the two vertical cursors (lines 540 and
  541): cursor 1 is toggled with \<open>USE_MIN\<close>, cursor 2 with \<open>USE_MAX\<close>.
\<close>

definition show_vcursor1_changed ::
  "InfiniteLine \<Rightarrow> bool \<Rightarrow> float64 list option \<Rightarrow> float64 list option \<Rightarrow> py_error + InfiniteLine" where
  "show_vcursor1_changed vcursor1 state last_x_as_array last_y_as_array =
     toggle_cursor vcursor1 True state USE_MIN last_x_as_array last_y_as_array"

definition show_vcursor2_changed ::
  "InfiniteLine \<Rightarrow> bool \<Rightarrow> float64 list option \<Rightarrow> float64 list option \<Rightarrow> py_error + InfiniteLine" where
  "show_vcursor2_changed vcursor2 state last_x_as_array last_y_as_array =
     toggle_cursor vcursor2 True state USE_MAX last_x_as_array last_y_as_array"

text \<open>
  The part of \<open>_update_scatter_plot\<close> that concerns the vertical cursors, run for
  every message the consumer pops: the x-array is
  \<open>np.arange(len(sample)) * sample_spacing_ps\<close> (line 1147), and when it is not empty
  each of the two cursors is tested against \<open>min_x = 0\<close> and \<open>max_x\<close>, the last
  element of the x-array (lines 1155 to 1163).
\<close>

definition x_as_array :: "SampleStream \<Rightarrow> float64 list" where
  "x_as_array msg =
     map (\<lambda>i. fmul (Fin (real i)) (sample_spacing_ps msg)) [0..<length (sample msg)]"

definition restrict_vcursor :: "float64 \<Rightarrow> float64 \<Rightarrow> InfiniteLine \<Rightarrow> InfiniteLine" where
  "restrict_vcursor min_x max_x vcursor =
     (if flt (line_value vcursor) min_x then vcursor\<lparr>line_value := min_x\<rparr>
      else if fgt (line_value vcursor) max_x then vcursor\<lparr>line_value := max_x\<rparr>
      else vcursor)"

definition update_scatter_plot_vcursors ::
  "SampleStream \<Rightarrow> InfiniteLine \<Rightarrow> InfiniteLine \<Rightarrow> float64 list \<times> InfiniteLine \<times> InfiniteLine" where
  "update_scatter_plot_vcursors last_displayed vcursor1 vcursor2 =
     (let last_x_as_array = x_as_array last_displayed in
      if length last_x_as_array > 0
      then (let min_x = Fin 0; max_x = last last_x_as_array
            in (last_x_as_array,
                restrict_vcursor min_x max_x vcursor1,
                restrict_vcursor min_x max_x vcursor2))
      else (last_x_as_array, vcursor1, vcursor2))"

section \<open>Preset names of the tool server\<close>

text \<open>
  A Python \<open>str\<close> is the list of its code points; \<open>char\<close> covers the code points up
  to 255 (Latin-1), and the functions below are the Python ones on that range.
  \<open>str.isspace\<close>, \<open>str.strip\<close>, \<open>str.lower\<close> and the regular expression's
  \<open>\d\<close> (a decimal digit: below 256 these are \<open>0\<close> to \<open>9\<close> only):
\<close>

definition isspace :: "char \<Rightarrow> bool" where
  "isspace c = (let n = (of_char c :: nat)
                in (9 \<le> n \<and> n \<le> 13) \<or> (28 \<le> n \<and> n \<le> 32) \<or> n = 133 \<or> n = 160)"

definition strip :: "string \<Rightarrow> string" where
  "strip s = rev (dropWhile isspace (rev (dropWhile isspace s)))"

definition lower_char :: "char \<Rightarrow> char" where
  "lower_char c = (let n = (of_char c :: nat)
                   in if (65 \<le> n \<and> n \<le> 90) \<or> (192 \<le> n \<and> n \<le> 222 \<and> n \<noteq> 215)
                      then char_of (n + 32) else c)"

definition lower :: "string \<Rightarrow> string" where
  "lower s = map lower_char s"

definition isdigit :: "char \<Rightarrow> bool" where
  "isdigit c = (let n = (of_char c :: nat) in 48 \<le> n \<and> n \<le> 57)"

text \<open>
  \<open>re.findall(r"(\d+(?:\.\d+)?)", s0)\<close>: the scan from the left for the
  non-overlapping matches, each a longest run of digits, followed, when a dot and
  another digit come next, by the dot and the longest run of digits after it.
\<close>

function findall_numbers :: "string \<Rightarrow> string list" where
  "findall_numbers [] = []"
| "findall_numbers (c # cs) =
     (if isdigit c
      then (let whole = takeWhile isdigit (c # cs);
                rest = dropWhile isdigit (c # cs)
            in (case rest of
                  d # f # rest' \<Rightarrow>
                    if d = CHR ''.'' \<and> isdigit f
                    then (whole @ [d] @ takeWhile isdigit (f # rest'))
                           # findall_numbers (dropWhile isdigit (f # rest'))
                    else whole # findall_numbers rest
                | _ \<Rightarrow> whole # findall_numbers rest))
      else findall_numbers cs)"
  by pat_completeness auto
termination
proof (relation "measure length", goal_cases)
  case 1
  show ?case by simp
next
  case (2 c cs whole rest)
  have "length rest \<le> length cs"
    using 2(1) unfolding 2(3) by (simp add: length_dropWhile_le)
  then show ?case by simp
next
  case (3 c cs whole rest d tail)
  have "length rest \<le> length cs"
    using 3(1) unfolding 3(3) by (simp add: length_dropWhile_le)
  then show ?case by simp
next
  case (4 c cs whole rest d tail f rest')
  have "length (dropWhile isdigit (f # rest')) \<le> length (f # rest')"
    by (rule length_dropWhile_le)
  moreover have "length rest \<le> length cs"
    using 4(1) unfolding 4(3) by (simp add: length_dropWhile_le)
  ultimately show ?case using 4(4,5) by simp
next
  case (5 c cs whole rest d tail f rest')
  have "length rest \<le> length cs"
    using 5(1) unfolding 5(3) by (simp add: length_dropWhile_le)
  then show ?case by simp
next
  case (6 c cs)
  show ?case by simp
qed

declare findall_numbers.simps [simp del]

text \<open>
  \<open>float(x)\<close> on such a match. The decimal value of the digits is exact
  (\<open>decimal_value\<close>); \<open>to_double\<close> rounds it to the nearest double, ties to the
  even significand: 53 significant bits, no exponent below the subnormal one, and
  infinity from \<open>2 ^ 1024\<close> on.
\<close>

definition digit_value :: "char \<Rightarrow> nat" where
  "digit_value c = of_char c - 48"

definition digits_value :: "string \<Rightarrow> nat" where
  "digits_value ds = foldl (\<lambda>n c. 10 * n + digit_value c) 0 ds"

definition decimal_value :: "string \<Rightarrow> rat" where
  "decimal_value x =
     (let whole = takeWhile isdigit x;
          fraction = drop (Suc (length whole)) x
      in of_nat (digits_value whole) + of_nat (digits_value fraction) / 10 ^ length fraction)"

fun bit_length :: "nat \<Rightarrow> nat" where
  "bit_length n = (if n = 0 then 0 else Suc (bit_length (n div 2)))"

definition pow2 :: "int \<Rightarrow> rat" where
  "pow2 e = (if 0 \<le> e then 2 ^ nat e else 1 / 2 ^ nat (- e))"

text \<open>The exponent \<open>e\<close> of a positive rational: \<open>2 ^ e \<le> q < 2 ^ (e + 1)\<close>.\<close>

definition binary_exponent :: "rat \<Rightarrow> int" where
  "binary_exponent q =
     (let (n, d) = quotient_of q;
          e0 = int (bit_length (nat n)) - int (bit_length (nat d))
      in if pow2 e0 \<le> q then e0 else e0 - 1)"

definition to_double :: "rat \<Rightarrow> float64" where
  "to_double q =
     (if q = 0 then Fin 0
      else (let e = max (binary_exponent q) (- 1022);
                m = round_half_even (q * pow2 (52 - e));
                v = of_int m * pow2 (e - 52)
            in if 2 ^ 1024 \<le> v then PInf else Fin (of_rat v)))"

definition float_of_str :: "string \<Rightarrow> float64" where
  "float_of_str x = to_double (decimal_value x)"

text \<open>
  The format \<open>.1f\<close> of a float: one decimal, correctly rounded from the exact value
  of the double, ties to the even digit.
\<close>

fun str_of_nat :: "nat \<Rightarrow> string" where
  "str_of_nat n =
     (if n < 10 then [char_of (48 + n)]
      else str_of_nat (n div 10) @ [char_of (48 + n mod 10)])"

definition format_1f :: "float64 \<Rightarrow> string" where
  "format_1f x =
     (case x of
        NaN \<Rightarrow> ''nan''
      | PInf \<Rightarrow> ''inf''
      | NInf \<Rightarrow> ''-inf''
      | Fin r \<Rightarrow>
          (let t = nat (round_half_even (\<bar>r\<bar> * 10))
           in (if r < 0 then ''-'' else '''')
              @ str_of_nat (t div 10) @ ''.'' @ str_of_nat (t mod 10)))"

text \<open>
  The presets of the instrument (the names of \<open>radium_public_pb2\<close>) and
  \<open>_PRESET_ALIASES\<close>, in the order of the dictionary.
\<close>

datatype TDRConfigurationPreset =
    TDR_CONFIGURATION_PRESET_PULSE_PERIOD_3P2_NS_SAMPLE_SPACING_0P2_PS
  | TDR_CONFIGURATION_PRESET_PULSE_PERIOD_6P4_NS_SAMPLE_SPACING_0P4_PS
  | TDR_CONFIGURATION_PRESET_PULSE_PERIOD_12P8_NS_SAMPLE_SPACING_0P8_PS
  | TDR_CONFIGURATION_PRESET_PULSE_PERIOD_16P0_NS_SAMPLE_SPACING_1P0_PS
  | TDR_CONFIGURATION_PRESET_PULSE_PERIOD_32P0_NS_SAMPLE_SPACING_2P0_PS
  | TDR_CONFIGURATION_PRESET_PULSE_PERIOD_64P0_NS_SAMPLE_SPACING_4P0_PS
  | TDR_CONFIGURATION_PRESET_PULSE_PERIOD_80P0_NS_SAMPLE_SPACING_5P0_PS
  | TDR_CONFIGURATION_PRESET_PULSE_PERIOD_128P0_NS_SAMPLE_SPACING_8P0_PS
  | TDR_CONFIGURATION_PRESET_PULSE_PERIOD_160P0_NS_SAMPLE_SPACING_10P0_PS
  | TDR_CONFIGURATION_PRESET_PULSE_PERIOD_16P0_NS_SAMPLE_SPACING_50P0_PS
  | TDR_CONFIGURATION_PRESET_PULSE_PERIOD_16P0_NS_SAMPLE_SPACING_100P0_PS

definition PRESET_ALIASES :: "(string \<times> TDRConfigurationPreset) list" where
  "PRESET_ALIASES =
     [(''3.2ns/0.2ps'', TDR_CONFIGURATION_PRESET_PULSE_PERIOD_3P2_NS_SAMPLE_SPACING_0P2_PS),
      (''6.4ns/0.4ps'', TDR_CONFIGURATION_PRESET_PULSE_PERIOD_6P4_NS_SAMPLE_SPACING_0P4_PS),
      (''12.8ns/0.8ps'', TDR_CONFIGURATION_PRESET_PULSE_PERIOD_12P8_NS_SAMPLE_SPACING_0P8_PS),
      (''16.0ns/1.0ps'', TDR_CONFIGURATION_PRESET_PULSE_PERIOD_16P0_NS_SAMPLE_SPACING_1P0_PS),
      (''32.0ns/2.0ps'', TDR_CONFIGURATION_PRESET_PULSE_PERIOD_32P0_NS_SAMPLE_SPACING_2P0_PS),
      (''64.0ns/4.0ps'', TDR_CONFIGURATION_PRESET_PULSE_PERIOD_64P0_NS_SAMPLE_SPACING_4P0_PS),
      (''80.0ns/5.0ps'', TDR_CONFIGURATION_PRESET_PULSE_PERIOD_80P0_NS_SAMPLE_SPACING_5P0_PS),
      (''128.0ns/8.0ps'', TDR_CONFIGURATION_PRESET_PULSE_PERIOD_128P0_NS_SAMPLE_SPACING_8P0_PS),
      (''160.0ns/10.0ps'', TDR_CONFIGURATION_PRESET_PULSE_PERIOD_160P0_NS_SAMPLE_SPACING_10P0_PS),
      (''16.0ns/50.0ps'', TDR_CONFIGURATION_PRESET_PULSE_PERIOD_16P0_NS_SAMPLE_SPACING_50P0_PS),
      (''16.0ns/100.0ps'', TDR_CONFIGURATION_PRESET_PULSE_PERIOD_16P0_NS_SAMPLE_SPACING_100P0_PS)]"

text \<open>\<open>', '.join(...)\<close> and the key \<open>f"{ns:.1f}ns/{ps:.1f}ps"\<close>.\<close>

fun join_comma :: "string list \<Rightarrow> string" where
  "join_comma [] = []"
| "join_comma [x] = x"
| "join_comma (x # y # rest) = x @ '', '' @ join_comma (y # rest)"

definition preset_key :: "float64 \<Rightarrow> float64 \<Rightarrow> string" where
  "preset_key ns ps = format_1f ns @ ''ns/'' @ format_1f ps @ ''ps''"

definition unrecognized_preset :: "string \<Rightarrow> string" where
  "unrecognized_preset s =
     ''Unrecognized preset '' @ [CHR 0x27] @ s @ [CHR 0x27] @ ''. Try one of: ''
       @ join_comma (sort (map fst PRESET_ALIASES))"

text \<open>
  \<open>_normalize_preset\<close>: the stripped, lower-cased name is looked up; failing that,
  the key made of the first two numbers found in it is looked up; failing that,
  ValueError with the sorted keys.
\<close>

definition normalize_preset :: "string \<Rightarrow> py_error + TDRConfigurationPreset" where
  "normalize_preset s =
     (let s0 = lower (strip s) in
      case map_of PRESET_ALIASES s0 of
        Some preset \<Rightarrow> Inr preset
      | None \<Rightarrow>
          (case map float_of_str (findall_numbers s0) of
             ns # ps # others \<Rightarrow>
               (case map_of PRESET_ALIASES (preset_key ns ps) of
                  Some preset \<Rightarrow> Inr preset
                | None \<Rightarrow> Inl (ValueError (unrecognized_preset s)))
           | _ \<Rightarrow> Inl (ValueError (unrecognized_preset s))))"

text \<open>
  \<open>configure_tdr_preset\<close>, with the remote calls it issues, in order. The two
  calls to the instrument are parameters: the outcome of \<open>ConfigureTDRPreset\<close> (an
  error of the call is not caught) and of the read-back \<open>GetTDRConfiguration\<close> (any
  exception there gives the dictionary of unknowns). Opening the channel issues no call.
\<close>

datatype rpc =
    ConfigureTDRPresetRequest TDRConfigurationPreset
  | GetTDRConfigurationRequest

datatype configured =
    ReadBack int float64 float64
  | ReadBackUnknown

definition configure_tdr_preset ::
  "string \<Rightarrow> (py_error + unit) \<Rightarrow> (py_error + int \<times> float64 \<times> float64)
   \<Rightarrow> rpc list \<times> (py_error + configured)" where
  "configure_tdr_preset preset configure_reply cfg_reply =
     (case normalize_preset preset of
        Inl e \<Rightarrow> ([], Inl e)
      | Inr enum_val \<Rightarrow>
          (case configure_reply of
             Inl e \<Rightarrow> ([ConfigureTDRPresetRequest enum_val], Inl e)
           | Inr ok \<Rightarrow>
               ([ConfigureTDRPresetRequest enum_val, GetTDRConfigurationRequest],
                (case cfg_reply of
                   Inl e \<Rightarrow> Inr ReadBackUnknown
                 | Inr (pulse_period, period_ns, spacing_ps) \<Rightarrow>
                     Inr (ReadBack pulse_period period_ns spacing_ps)))))"

section \<open>Concrete inputs\<close>

text \<open>
  A message with finite samples and metadata, and a connected, running window with an
  empty buffer, an empty queue and a given averaging factor.
\<close>

definition frame :: "real list \<Rightarrow> real \<Rightarrow> real \<Rightarrow> real \<Rightarrow> real \<Rightarrow> SampleStream" where
  "frame vs spacing period r50 amp =
     \<lparr>sample = map Fin vs, sample_spacing_ps = Fin spacing, pulse_period_ns = Fin period,
      ref_50ohm = Fin r50, ref_unit_amp = Fin amp\<rparr>"

definition frame0 :: "real \<Rightarrow> SampleStream" where
  "frame0 v = frame [v] 1 16 0 1"

definition app_window :: "nat \<Rightarrow> AppWindow" where
  "app_window n =
     \<lparr>connected_flag = True, paused = False, buffered_sample_stream = None,
      sample_stream_queue = [], waveform_average_count = n, rx_count_for_avg_calc = 0,
      last_displayed_sample_stream = None, sample_stream_count = 0\<rparr>"

section \<open>Rounding to float64\<close>

lemma pow2r_powr: "pow2r e = 2 powr (real_of_int e)"
proof (cases "0 \<le> e")
  case True
  then have "2 powr real_of_int e = 2 powr real (nat e)" by simp
  also have "\<dots> = 2 ^ nat e" by (simp add: powr_realpow)
  finally show ?thesis using True by (simp add: pow2r_def)
next
  case False
  then have "2 powr real_of_int e = 2 powr (- real (nat (- e)))" by simp
  also have "\<dots> = 1 / 2 powr real (nat (- e))" by (simp only: powr_minus_divide)
  also have "\<dots> = 1 / 2 ^ nat (- e)" by (simp add: powr_realpow)
  finally show ?thesis using False by (simp add: pow2r_def)
qed

lemma round_half_even_int: "round_half_even (of_int k :: 'a::floor_ceiling) = k"
  by (simp add: round_half_even_def)

lemma round_half_even_between:
  fixes x :: "'a::floor_ceiling"
  assumes "of_int m - 1 / 2 < x" and "x < of_int m + 1 / 2"
  shows "round_half_even x = m"
proof (cases "of_int m \<le> x")
  case True
  have fl: "\<lfloor>x\<rfloor> = m"
    using True assms(2) by (intro floor_unique) (simp_all add: algebra_simps)
  have "x - of_int m < 1 / 2" using assms(2) by (simp add: algebra_simps)
  then show ?thesis unfolding round_half_even_def Let_def fl by simp
next
  case False
  have fl: "\<lfloor>x\<rfloor> = m - 1"
    using False assms(1) by (intro floor_unique) (simp_all add: algebra_simps)
  have "1 / 2 < x - of_int (m - 1)" using assms(1) by (simp add: algebra_simps)
  then have "\<not> x - of_int (m - 1) < 1 / 2" "1 / 2 < x - of_int (m - 1)" by simp_all
  then show ?thesis unfolding round_half_even_def Let_def fl by (simp only: if_False if_True)
qed

lemma round_half_even_nearest_even:
  fixes x :: "'a::floor_ceiling"
  assumes "even m" and "of_int m - 1 / 2 \<le> x" and "x \<le> of_int m + 1 / 2"
  shows "round_half_even x = m"
proof -
  consider "x = of_int m + 1 / 2" | "x = of_int m - 1 / 2"
    | "of_int m - 1 / 2 < x" "x < of_int m + 1 / 2"
    using assms(2,3) by fastforce
  then show ?thesis
  proof cases
    case 1
    have fl: "\<lfloor>x\<rfloor> = m"
      unfolding 1 by (intro floor_unique) simp_all
    have "x - of_int m = 1 / 2" unfolding 1 by simp
    then show ?thesis unfolding round_half_even_def Let_def fl using assms(1) by simp
  next
    case 2
    have fl: "\<lfloor>x\<rfloor> = m - 1"
      unfolding 2 by (intro floor_unique) (simp_all add: algebra_simps)
    have "x - of_int (m - 1) = 1 / 2" unfolding 2 by simp
    then show ?thesis unfolding round_half_even_def Let_def fl using assms(1) by simp
  next
    case 3
    then show ?thesis by (rule round_half_even_between)
  qed
qed

lemma round64_eval:
  assumes "0 < x" and "pow2r e \<le> x" and "x < pow2r (e + 1)" and "- 1022 \<le> e"
    and "round_half_even (x * pow2r (52 - e)) = m"
    and "of_int m * pow2r (e - 52) = v" and "v < 2 ^ 1024"
  shows "round64 x = Fin v"
proof -
  have "\<lfloor>log 2 x\<rfloor> = e"
    using assms(1,2,3) by (simp add: floor_log_eq_powr_iff pow2r_powr)
  then show ?thesis
    using assms by (simp add: round64_def Let_def)
qed





section \<open>The hand-off queue\<close>

lemma put_dropping_simp: "put_dropping q item = (if length q < maxsize then q @ [item] else q)"
  by (simp add: put_dropping_def put_nowait_def)

lemma foldl_put_dropping_take:
  assumes "length q \<le> maxsize"
  shows "foldl put_dropping q items = take maxsize (q @ items)"
  using assms
proof (induction items arbitrary: q)
  case Nil
  then show ?case by simp
next
  case (Cons a items)
  then show ?case by (auto simp: put_dropping_simp take_Cons')
qed

lemma pop_all:
  "\<not> paused st \<Longrightarrow> snd (pop_sample_stream_queue st) = sample_stream_queue st
     \<and> sample_stream_queue (fst (pop_sample_stream_queue st)) = []
     \<and> paused (fst (pop_sample_stream_queue st)) = paused st"
proof (induction st rule: pop_sample_stream_queue.induct)
  case (1 st)
  show ?case
  proof (cases "sample_stream_queue st")
    case Nil
    then show ?thesis using 1
      by (simp add: pop_sample_stream_queue.simps[of st] get_nowait_def)
  next
    case (Cons item rest)
    define st1 where "st1 = st\<lparr>sample_stream_queue := rest,
                             last_displayed_sample_stream := Some item,
                             sample_stream_count := sample_stream_count st + 1\<rparr>"
    have g: "get_nowait (sample_stream_queue st) = Inr (item, rest)"
      by (simp add: get_nowait_def Cons)
    have np: "\<not> paused st" by (rule "1.prems")
    have ih: "snd (pop_sample_stream_queue st1) = sample_stream_queue st1
     \<and> sample_stream_queue (fst (pop_sample_stream_queue st1)) = []
     \<and> paused (fst (pop_sample_stream_queue st1)) = paused st1"
      unfolding st1_def using "1.IH"[OF np g refl] np by simp
    have unf: "pop_sample_stream_queue st =
       (fst (pop_sample_stream_queue st1), item # snd (pop_sample_stream_queue st1))"
      by (subst pop_sample_stream_queue.simps) (simp add: np g st1_def split: prod.splits)
    show ?thesis using ih by (simp add: unf st1_def Cons)
  qed
qed

lemma fdiv_one: "fdiv x (Fin 1) = x"
  by (cases x) simp_all

lemma np_div_count_one: "np_div_count xs (Suc 0) = xs"
  by (simp add: np_div_count_def fdiv_one)

lemma step_no_averaging:
  assumes "\<not> paused st" "waveform_average_count st = 1"
    "rx_count_for_avg_calc st = 0"
  shows "sample_stream_step st m =
     Inr (st\<lparr>buffered_sample_stream := Some m, rx_count_for_avg_calc := 0,
             sample_stream_queue := put_dropping (sample_stream_queue st) m\<rparr>)"
  using assms
  by (simp add: sample_stream_step_def accumulate_def emit_average_def np_div_count_one
      split: option.splits)

lemma run_no_averaging:
  assumes "connected_flag st" "\<not> paused st" "waveform_average_count st = 1"
    "rx_count_for_avg_calc st = 0"
  shows "\<exists>st'. radium_sample_stream st msgs = Inr st'
     \<and> sample_stream_queue st' = foldl put_dropping (sample_stream_queue st) msgs
     \<and> \<not> paused st'"
  using assms
proof (induction msgs arbitrary: st)
  case Nil
  then show ?case by simp
next
  case (Cons m msgs)
  let ?st1 = "st\<lparr>buffered_sample_stream := Some m, rx_count_for_avg_calc := 0,
             sample_stream_queue := put_dropping (sample_stream_queue st) m\<rparr>"
  have s: "sample_stream_step st m = Inr ?st1"
    using Cons.prems by (simp add: step_no_averaging)
  have "\<exists>st'. radium_sample_stream ?st1 msgs = Inr st'
     \<and> sample_stream_queue st' = foldl put_dropping (sample_stream_queue ?st1) msgs
     \<and> \<not> paused st'"
    by (rule Cons.IH) (use Cons.prems in simp_all)
  then show ?case using Cons.prems s by simp
qed

text \<open>
  Claim C4. The hand-off queue is a bounded FIFO of capacity 10 with a non-blocking
  push. With no averaging, a connected and running producer that receives 11 messages
  while nothing is consumed ends without error; its queue holds the first 10 messages in
  the order received; the put of the 11th, the newest, is the one that met
  \<open>queue.Full\<close>; and the consumer's drain pops exactly those 10, in that order, and
  leaves the queue empty.
\<close>

theorem handoff_queue_drops_newest:
  assumes "connected_flag st" and "\<not> paused st" and "waveform_average_count st = 1"
    and "rx_count_for_avg_calc st = 0" and "sample_stream_queue st = []"
    and "length msgs = Suc maxsize"
  shows "maxsize = 10
    \<and> (\<exists>st'. radium_sample_stream st msgs = Inr st'
          \<and> sample_stream_queue st' = butlast msgs
          \<and> put_nowait (butlast msgs) (last msgs) = Inl Full
          \<and> snd (pop_sample_stream_queue st') = butlast msgs
          \<and> sample_stream_queue (fst (pop_sample_stream_queue st')) = [])"
proof -
  obtain st' where r: "radium_sample_stream st msgs = Inr st'"
    and q: "sample_stream_queue st' = foldl put_dropping (sample_stream_queue st) msgs"
    and p: "\<not> paused st'"
    using run_no_averaging[OF assms(1-4), of msgs] by blast
  have "foldl put_dropping [] msgs = take maxsize msgs"
    using foldl_put_dropping_take[of "[]" msgs] by simp
  also have "\<dots> = butlast msgs"
    using assms(6) by (simp add: butlast_conv_take)
  finally have q': "sample_stream_queue st' = butlast msgs"
    using q assms(5) by simp
  have f: "put_nowait (butlast msgs) (last msgs) = Inl Full"
    using assms(6) by (simp add: put_nowait_def)
  show ?thesis
    using r q' f pop_all[OF p] by (simp add: maxsize_def)
qed

theorem handoff_queue_drops_newest_witness:
  "connected_flag (app_window 1) \<and> \<not> paused (app_window 1)
    \<and> waveform_average_count (app_window 1) = 1
    \<and> rx_count_for_avg_calc (app_window 1) = 0 \<and> sample_stream_queue (app_window 1) = []
    \<and> length (map frame0 [1,2,3,4,5,6,7,8,9,10,11]) = Suc maxsize
    \<and> (\<exists>st'. radium_sample_stream (app_window 1) (map frame0 [1,2,3,4,5,6,7,8,9,10,11]) = Inr st'
          \<and> sample_stream_queue st' = map frame0 [1,2,3,4,5,6,7,8,9,10]
          \<and> snd (pop_sample_stream_queue st') = map frame0 [1,2,3,4,5,6,7,8,9,10])"
proof -
  have h: "connected_flag (app_window 1)" "\<not> paused (app_window 1)"
    "waveform_average_count (app_window 1) = 1"
    "rx_count_for_avg_calc (app_window 1) = 0" "sample_stream_queue (app_window 1) = []"
    "length (map frame0 [1,2,3,4,5,6,7,8,9,10,11]) = Suc maxsize"
    by (simp_all add: app_window_def maxsize_def)
  show ?thesis
    using handoff_queue_drops_newest[OF h] h by auto
qed

section \<open>The averaging accumulator\<close>

lemma np_add_same_length:
  "length a = length b \<Longrightarrow> np_add a b = Inr (map2 fadd a b)"
  by (simp add: np_add_def)

lemma step_accumulate_more:
  assumes "\<not> paused st" and "buffered_sample_stream st = Some buf"
    and "0 < rx_count_for_avg_calc st"
    and "same_configuration buf m" and "length (sample m) = length (sample buf)"
    and "Suc (rx_count_for_avg_calc st) \<noteq> waveform_average_count st"
  shows "sample_stream_step st m =
     Inr (st\<lparr>buffered_sample_stream := Some (buf\<lparr>sample := map2 fadd (sample buf) (sample m)\<rparr>),
             rx_count_for_avg_calc := Suc (rx_count_for_avg_calc st)\<rparr>)"
  using assms
  by (simp add: sample_stream_step_def accumulate_def emit_average_def np_add_same_length)

lemma step_accumulate_last:
  assumes "\<not> paused st" and "buffered_sample_stream st = Some buf"
    and "0 < rx_count_for_avg_calc st"
    and "same_configuration buf m" and "length (sample m) = length (sample buf)"
    and "Suc (rx_count_for_avg_calc st) = waveform_average_count st"
  shows "sample_stream_step st m =
     Inr (st\<lparr>buffered_sample_stream :=
                Some (buf\<lparr>sample := np_div_count (map2 fadd (sample buf) (sample m))
                                     (waveform_average_count st)\<rparr>),
             rx_count_for_avg_calc := 0,
             sample_stream_queue :=
                put_dropping (sample_stream_queue st)
                  (buf\<lparr>sample := np_div_count (map2 fadd (sample buf) (sample m))
                                     (waveform_average_count st)\<rparr>)\<rparr>)"
  using assms
  by (simp add: sample_stream_step_def accumulate_def emit_average_def np_add_same_length Let_def)

lemma step_fresh:
  assumes "\<not> paused st"
    and "buffered_sample_stream st = None \<or> rx_count_for_avg_calc st = 0"
    and "waveform_average_count st \<noteq> 1"
  shows "sample_stream_step st m =
     Inr (st\<lparr>buffered_sample_stream := Some m, rx_count_for_avg_calc := 1\<rparr>)"
  using assms
  by (auto simp: sample_stream_step_def accumulate_def emit_average_def split: option.splits)

lemma step_fresh_one:
  assumes "\<not> paused st"
    and "buffered_sample_stream st = None \<or> rx_count_for_avg_calc st = 0"
    and "waveform_average_count st = 1"
  shows "sample_stream_step st m =
     Inr (st\<lparr>buffered_sample_stream := Some (m\<lparr>sample := np_div_count (sample m) 1\<rparr>),
             rx_count_for_avg_calc := 0,
             sample_stream_queue := put_dropping (sample_stream_queue st)
                 (m\<lparr>sample := np_div_count (sample m) 1\<rparr>)\<rparr>)"
  using assms
  by (auto simp: sample_stream_step_def accumulate_def emit_average_def Let_def split: option.splits)

lemma same_configuration_sample_update [simp]:
  "same_configuration (buf\<lparr>sample := s\<rparr>) m = same_configuration buf m"
  by (simp add: same_configuration_def)

lemma radium_sample_stream_append:
  "radium_sample_stream st (xs @ ys) =
     (case radium_sample_stream st xs of
        Inl e \<Rightarrow> Inl e
      | Inr st' \<Rightarrow> radium_sample_stream st' ys)"
proof (induction xs arbitrary: st)
  case Nil
  then show ?case by simp
next
  case (Cons x xs)
  show ?case
  proof (cases "connected_flag st")
    case True
    then show ?thesis using Cons.IH by (simp split: sum.splits)
  next
    case False
    then show ?thesis by (cases ys) simp_all
  qed
qed

lemma accumulating_phase:
  assumes "connected_flag st" and "\<not> paused st"
    and "buffered_sample_stream st = Some buf"
    and "0 < rx_count_for_avg_calc st"
    and "list_all (\<lambda>m. same_configuration buf m \<and> length (sample m) = length (sample buf)) ms"
    and "rx_count_for_avg_calc st + length ms < waveform_average_count st"
  shows "\<exists>st'. radium_sample_stream st ms = Inr st'
     \<and> buffered_sample_stream st' =
          Some (buf\<lparr>sample := foldl (map2 fadd) (sample buf) (map sample ms)\<rparr>)
     \<and> rx_count_for_avg_calc st' = rx_count_for_avg_calc st + length ms
     \<and> sample_stream_queue st' = sample_stream_queue st
     \<and> connected_flag st' \<and> \<not> paused st'
     \<and> waveform_average_count st' = waveform_average_count st"
  using assms
proof (induction ms arbitrary: st buf)
  case Nil
  then show ?case by simp
next
  case (Cons m ms)
  let ?buf1 = "buf\<lparr>sample := map2 fadd (sample buf) (sample m)\<rparr>"
  let ?st1 = "st\<lparr>buffered_sample_stream := Some ?buf1,
             rx_count_for_avg_calc := Suc (rx_count_for_avg_calc st)\<rparr>"
  have m: "same_configuration buf m" "length (sample m) = length (sample buf)"
    and ms: "list_all (\<lambda>m. same_configuration buf m \<and> length (sample m) = length (sample buf)) ms"
    using Cons.prems(5) by simp_all
  have s: "sample_stream_step st m = Inr ?st1"
    using Cons.prems m by (intro step_accumulate_more) simp_all
  have ms1: "list_all (\<lambda>m. same_configuration ?buf1 m \<and> length (sample m) = length (sample ?buf1)) ms"
    using ms m by (simp add: list_all_iff)
  have "\<exists>st'. radium_sample_stream ?st1 ms = Inr st'
     \<and> buffered_sample_stream st' =
          Some (?buf1\<lparr>sample := foldl (map2 fadd) (sample ?buf1) (map sample ms)\<rparr>)
     \<and> rx_count_for_avg_calc st' = rx_count_for_avg_calc ?st1 + length ms
     \<and> sample_stream_queue st' = sample_stream_queue ?st1
     \<and> connected_flag st' \<and> \<not> paused st'
     \<and> waveform_average_count st' = waveform_average_count ?st1"
    by (rule Cons.IH[OF _ _ _ _ ms1]) (use Cons.prems in simp_all)
  then show ?case using Cons.prems(1) s by simp
qed

lemma length_foldl_map2:
  "list_all (\<lambda>b. length b = length a) bs \<Longrightarrow> length (foldl (map2 f) a bs) = length a"
  by (induction bs arbitrary: a) (simp_all add: list_all_iff)

lemma averaging_window:
  assumes "connected_flag st" and "\<not> paused st"
    and "buffered_sample_stream st = None \<or> rx_count_for_avg_calc st = 0"
    and "Suc (length fs) = waveform_average_count st"
    and "list_all (\<lambda>g. same_configuration f g \<and> length (sample g) = length (sample f)) fs"
  shows "\<exists>st'. radium_sample_stream st (f # fs) = Inr st'
     \<and> rx_count_for_avg_calc st' = 0
     \<and> sample_stream_queue st' =
          put_dropping (sample_stream_queue st)
            (f\<lparr>sample := np_div_count (foldl (map2 fadd) (sample f) (map sample fs))
                               (waveform_average_count st)\<rparr>)
     \<and> connected_flag st' \<and> \<not> paused st'
     \<and> waveform_average_count st' = waveform_average_count st"
proof (cases fs rule: rev_cases)
  case Nil
  then have "waveform_average_count st = 1" using assms(4) by simp
  then show ?thesis
    using assms(1,2) Nil step_fresh_one[OF assms(2,3), of f] by simp
next
  case (snoc ms m)
  let ?st1 = "st\<lparr>buffered_sample_stream := Some f, rx_count_for_avg_calc := Suc 0\<rparr>"
  have n: "waveform_average_count st = Suc (Suc (length ms))"
    using assms(4) snoc by simp
  have s1: "sample_stream_step st f = Inr ?st1"
    using step_fresh[OF assms(2,3), of f] n by simp
  have all_ms: "list_all (\<lambda>g. same_configuration f g \<and> length (sample g) = length (sample f)) ms"
    and m: "same_configuration f m" "length (sample m) = length (sample f)"
    using assms(5) snoc by simp_all
  obtain st2 where r2: "radium_sample_stream ?st1 ms = Inr st2"
    and b2: "buffered_sample_stream st2 =
          Some (f\<lparr>sample := foldl (map2 fadd) (sample f) (map sample ms)\<rparr>)"
    and c2: "rx_count_for_avg_calc st2 = Suc (length ms)"
    and q2: "sample_stream_queue st2 = sample_stream_queue st"
    and k2: "connected_flag st2" "\<not> paused st2"
    and n2: "waveform_average_count st2 = waveform_average_count st"
    using accumulating_phase[of ?st1 f ms] assms(1,2) all_ms n by auto
  let ?buf2 = "f\<lparr>sample := foldl (map2 fadd) (sample f) (map sample ms)\<rparr>"
  have len2: "length (sample m) = length (sample ?buf2)"
    using m(2) all_ms by (simp add: length_foldl_map2 list_all_iff)
  have s3: "sample_stream_step st2 m =
     Inr (st2\<lparr>buffered_sample_stream :=
                Some (?buf2\<lparr>sample := np_div_count (map2 fadd (sample ?buf2) (sample m))
                                     (waveform_average_count st2)\<rparr>),
             rx_count_for_avg_calc := 0,
             sample_stream_queue :=
                put_dropping (sample_stream_queue st2)
                  (?buf2\<lparr>sample := np_div_count (map2 fadd (sample ?buf2) (sample m))
                                     (waveform_average_count st2)\<rparr>)\<rparr>)"
    by (rule step_accumulate_last[OF k2(2) b2]) (use c2 n2 n m len2 in simp_all)
  have "radium_sample_stream st (f # ms @ [m]) =
      (case radium_sample_stream ?st1 (ms @ [m]) of Inl e \<Rightarrow> Inl e | Inr st' \<Rightarrow> Inr st')"
    using assms(1) s1 by (simp split: sum.splits)
  also have "radium_sample_stream ?st1 (ms @ [m]) = radium_sample_stream st2 [m]"
    by (simp add: radium_sample_stream_append r2)
  finally show ?thesis
    using s3 k2 q2 n2 snoc by simp
qed

lemma averaging_window_prefix:
  assumes "connected_flag st" and "\<not> paused st"
    and "buffered_sample_stream st = None \<or> rx_count_for_avg_calc st = 0"
    and "Suc (length fs) = waveform_average_count st"
    and "list_all (\<lambda>g. same_configuration f g \<and> length (sample g) = length (sample f)) fs"
    and "k \<le> length fs"
  shows "\<exists>st'. radium_sample_stream st (take k (f # fs)) = Inr st'
     \<and> sample_stream_queue st' = sample_stream_queue st"
proof (cases k)
  case 0
  then show ?thesis by simp
next
  case (Suc j)
  let ?st1 = "st\<lparr>buffered_sample_stream := Some f, rx_count_for_avg_calc := Suc 0\<rparr>"
  have n: "waveform_average_count st \<noteq> 1"
    using assms(4,6) Suc by simp
  have s1: "sample_stream_step st f = Inr ?st1"
    using step_fresh[OF assms(2,3) n, of f] by simp
  have all_ms: "list_all (\<lambda>g. same_configuration f g \<and> length (sample g) = length (sample f)) (take j fs)"
    using assms(5) by (auto simp: list_all_iff dest: in_set_takeD)
  obtain st2 where r2: "radium_sample_stream ?st1 (take j fs) = Inr st2"
    and q2: "sample_stream_queue st2 = sample_stream_queue st"
    using accumulating_phase[of ?st1 f "take j fs"] assms(1,2,4,6) all_ms Suc by auto
  show ?thesis
    using assms(1) s1 r2 q2 Suc by simp
qed




lemmas stream_eval =
  app_window_def frame_def frame0_def sample_stream_step_def accumulate_def emit_average_def
  same_configuration_def feq_def np_add_def np_div_count_def put_dropping_def put_nowait_def
  maxsize_def Let_def



text \<open>
  Claim C2, evaluated. With averaging factor 2 and one message accumulated, a message of
  another configuration becomes the buffer but leaves the count at 0, not 1. The next
  message of the new configuration therefore starts afresh (count 1, no output), and
  the output that the following one completes is the mean of these last two: the
  message that changed the configuration is in no average.
\<close>

theorem configuration_change_evaluation:
  "\<exists>st1 st2 st3.
     radium_sample_stream (app_window 2) [frame [1] 1 16 0 1, frame [5] 2 32 0 1] = Inr st1
     \<and> buffered_sample_stream st1 = Some (frame [5] 2 32 0 1)
     \<and> rx_count_for_avg_calc st1 = 0
     \<and> sample_stream_queue st1 = []
     \<and> radium_sample_stream st1 [frame [7] 2 32 0 1] = Inr st2
     \<and> buffered_sample_stream st2 = Some (frame [7] 2 32 0 1)
     \<and> rx_count_for_avg_calc st2 = 1
     \<and> sample_stream_queue st2 = []
     \<and> radium_sample_stream st2 [frame [9] 2 32 0 1] = Inr st3
     \<and> sample_stream_queue st3 = [frame [8] 2 32 0 1]"
  by (simp add: stream_eval)

text \<open>
  Claim C3. Whatever was accumulated, choosing an averaging factor \<open>n\<close> in the combo box
  drops the buffer at once and leaves the queue alone; the next \<open>n\<close> messages of one
  configuration then give exactly one output, the \<open>n\<close>-th completing it, and that
  output is the mean of these \<open>n\<close> messages only. For instance, when the factor 2 is
  chosen after one message has accumulated under the factor 4, the next two messages,
  not three, give the output.
\<close>

theorem averaging_factor_change_discards_partial_sum:
  assumes "connected_flag st" and "\<not> paused st"
    and "map_of waveform_average_map current_text = Some n"
    and "Suc (length fs) = n"
    and "list_all (\<lambda>g. same_configuration f g \<and> length (sample g) = length (sample f)) fs"
  shows "\<exists>st1. on_waveform_average_changed st current_text = Inr st1
     \<and> buffered_sample_stream st1 = None
     \<and> waveform_average_count st1 = n
     \<and> sample_stream_queue st1 = sample_stream_queue st
     \<and> (\<exists>st'. radium_sample_stream st1 (f # fs) = Inr st'
            \<and> rx_count_for_avg_calc st' = 0
            \<and> sample_stream_queue st' =
                 put_dropping (sample_stream_queue st)
                   (f\<lparr>sample := np_div_count (foldl (map2 fadd) (sample f) (map sample fs)) n\<rparr>))
     \<and> (\<forall>k\<le>length fs. \<exists>st''. radium_sample_stream st1 (take k (f # fs)) = Inr st''
            \<and> sample_stream_queue st'' = sample_stream_queue st)"
proof -
  let ?st1 = "st\<lparr>waveform_average_count := n, buffered_sample_stream := None\<rparr>"
  have ch: "on_waveform_average_changed st current_text = Inr ?st1"
    using assms(3) by (simp add: on_waveform_average_changed_def)
  have h: "connected_flag ?st1" "\<not> paused ?st1"
    "buffered_sample_stream ?st1 = None \<or> rx_count_for_avg_calc ?st1 = 0"
    "Suc (length fs) = waveform_average_count ?st1"
    using assms(1,2,4) by simp_all
  obtain st' where w1: "radium_sample_stream ?st1 (f # fs) = Inr st'"
    and w2: "rx_count_for_avg_calc st' = 0"
    and w3: "sample_stream_queue st' =
          put_dropping (sample_stream_queue ?st1)
            (f\<lparr>sample := np_div_count (foldl (map2 fadd) (sample f) (map sample fs))
                               (waveform_average_count ?st1)\<rparr>)"
    using averaging_window[OF h assms(5)] by blast
  have w: "\<exists>st'. radium_sample_stream ?st1 (f # fs) = Inr st'
            \<and> rx_count_for_avg_calc st' = 0
            \<and> sample_stream_queue st' =
                 put_dropping (sample_stream_queue st)
                   (f\<lparr>sample := np_div_count (foldl (map2 fadd) (sample f) (map sample fs)) n\<rparr>)"
    using w1 w2 w3 by simp
  have p: "\<forall>k\<le>length fs. \<exists>st''. radium_sample_stream ?st1 (take k (f # fs)) = Inr st''
            \<and> sample_stream_queue st'' = sample_stream_queue st"
    using averaging_window_prefix[OF h assms(5)] by simp
  show ?thesis using ch w p by simp
qed

theorem averaging_factor_change_discards_partial_sum_witness:
  "connected_flag ((app_window 4)\<lparr>buffered_sample_stream := Some (frame0 100),
                                   rx_count_for_avg_calc := 1\<rparr>)
   \<and> \<not> paused ((app_window 4)\<lparr>buffered_sample_stream := Some (frame0 100),
                                   rx_count_for_avg_calc := 1\<rparr>)
   \<and> map_of waveform_average_map ''x2 Averaging'' = Some 2
   \<and> Suc (length [frame0 3]) = 2
   \<and> list_all (\<lambda>g. same_configuration (frame0 1) g
                  \<and> length (sample g) = length (sample (frame0 1))) [frame0 3]
   \<and> (\<exists>st1 st'' st'. on_waveform_average_changed
              ((app_window 4)\<lparr>buffered_sample_stream := Some (frame0 100),
                               rx_count_for_avg_calc := 1\<rparr>) ''x2 Averaging'' = Inr st1
         \<and> radium_sample_stream st1 [frame0 1] = Inr st''
         \<and> sample_stream_queue st'' = []
         \<and> radium_sample_stream st1 [frame0 1, frame0 3] = Inr st'
         \<and> sample_stream_queue st' = [frame0 2])"
proof -
  let ?st = "(app_window 4)\<lparr>buffered_sample_stream := Some (frame0 100),
                              rx_count_for_avg_calc := 1\<rparr>"
  have h: "connected_flag ?st" "\<not> paused ?st"
    "map_of waveform_average_map ''x2 Averaging'' = Some 2"
    "Suc (length [frame0 3]) = 2"
    "list_all (\<lambda>g. same_configuration (frame0 1) g
                  \<and> length (sample g) = length (sample (frame0 1))) [frame0 3]"
    by (simp_all add: app_window_def frame0_def frame_def same_configuration_def feq_def
        waveform_average_map_def)
  obtain st1 st' where c: "on_waveform_average_changed ?st ''x2 Averaging'' = Inr st1"
    and r: "radium_sample_stream st1 [frame0 1, frame0 3] = Inr st'"
    and q: "sample_stream_queue st' =
                 put_dropping (sample_stream_queue ?st)
                   ((frame0 1)\<lparr>sample := np_div_count
                       (foldl (map2 fadd) (sample (frame0 1)) (map sample [frame0 3])) 2\<rparr>)"
    and p: "\<forall>k\<le>length [frame0 3]. \<exists>st''.
              radium_sample_stream st1 (take k [frame0 1, frame0 3]) = Inr st''
            \<and> sample_stream_queue st'' = sample_stream_queue ?st"
    using averaging_factor_change_discards_partial_sum[OF h] by blast
  have q': "sample_stream_queue st' = [frame0 2]"
    using q by (simp add: stream_eval)
  obtain st'' where "radium_sample_stream st1 (take 1 [frame0 1, frame0 3]) = Inr st''"
    and "sample_stream_queue st'' = sample_stream_queue ?st"
    using p by force
  then have "radium_sample_stream st1 [frame0 1] = Inr st''" "sample_stream_queue st'' = []"
    by (simp_all add: app_window_def)
  then show ?thesis using h c r q' by blast
qed

lemma clear_sample_stream_queue_empty [simp]: "clear_sample_stream_queue q = []"
  by (induction q) simp_all

lemma radium_sample_stream_paused:
  "paused st \<Longrightarrow> radium_sample_stream st msgs = Inr st"
  by (induction msgs) (simp_all add: sample_stream_step_def)

text \<open>
  Claim C10. Pausing a connected, running display clears the queue and keeps the buffer
  and the count; every message received while paused leaves the whole state as it is;
  and resuming gives back the state at the moment of pausing, with an empty queue, so
  the next message is accumulated exactly as it would have been without the pause.
\<close>

theorem pause_keeps_accumulator:
  assumes "connected_flag st" and "\<not> paused st"
  shows "paused (on_play_pause_plot_updates st)
     \<and> sample_stream_queue (on_play_pause_plot_updates st) = []
     \<and> buffered_sample_stream (on_play_pause_plot_updates st) = buffered_sample_stream st
     \<and> rx_count_for_avg_calc (on_play_pause_plot_updates st) = rx_count_for_avg_calc st
     \<and> radium_sample_stream (on_play_pause_plot_updates st) msgs
          = Inr (on_play_pause_plot_updates st)
     \<and> on_play_pause_plot_updates (on_play_pause_plot_updates st)
          = st\<lparr>sample_stream_queue := []\<rparr>
     \<and> accumulate (on_play_pause_plot_updates (on_play_pause_plot_updates st)) next_msg
          = map_sum id (\<lambda>s. s\<lparr>sample_stream_queue := []\<rparr>) (accumulate st next_msg)"
proof -
  let ?st1 = "on_play_pause_plot_updates st"
  have e1: "?st1 = st\<lparr>paused := True, sample_stream_queue := []\<rparr>"
    using assms by (simp add: on_play_pause_plot_updates_def Let_def)
  have e2: "on_play_pause_plot_updates ?st1 = st\<lparr>sample_stream_queue := []\<rparr>"
    using assms by (simp add: e1 on_play_pause_plot_updates_def Let_def)
  have r: "radium_sample_stream ?st1 msgs = Inr ?st1"
    by (rule radium_sample_stream_paused) (simp add: e1)
  have a: "accumulate (st\<lparr>sample_stream_queue := []\<rparr>) next_msg
          = map_sum id (\<lambda>s. s\<lparr>sample_stream_queue := []\<rparr>) (accumulate st next_msg)"
    by (simp add: accumulate_def split: option.splits sum.splits)
  show ?thesis using r a by (simp add: e2) (simp add: e1)
qed

theorem pause_keeps_accumulator_witness:
  "connected_flag ((app_window 4)\<lparr>buffered_sample_stream := Some (frame0 100),
                                   rx_count_for_avg_calc := 1\<rparr>)
   \<and> \<not> paused ((app_window 4)\<lparr>buffered_sample_stream := Some (frame0 100),
                                   rx_count_for_avg_calc := 1\<rparr>)
   \<and> buffered_sample_stream (on_play_pause_plot_updates
         ((app_window 4)\<lparr>buffered_sample_stream := Some (frame0 100),
                          rx_count_for_avg_calc := 1\<rparr>)) = Some (frame0 100)
   \<and> rx_count_for_avg_calc (on_play_pause_plot_updates
         ((app_window 4)\<lparr>buffered_sample_stream := Some (frame0 100),
                          rx_count_for_avg_calc := 1\<rparr>)) = 1
   \<and> radium_sample_stream (on_play_pause_plot_updates
         ((app_window 4)\<lparr>buffered_sample_stream := Some (frame0 100),
                          rx_count_for_avg_calc := 1\<rparr>)) [frame0 5, frame0 6]
       = Inr (on_play_pause_plot_updates
         ((app_window 4)\<lparr>buffered_sample_stream := Some (frame0 100),
                          rx_count_for_avg_calc := 1\<rparr>))"
proof -
  let ?st = "(app_window 4)\<lparr>buffered_sample_stream := Some (frame0 100),
                              rx_count_for_avg_calc := 1\<rparr>"
  have h: "connected_flag ?st" "\<not> paused ?st"
    by (simp_all add: app_window_def)
  show ?thesis
    using pause_keeps_accumulator[OF h, of "[frame0 5, frame0 6]"] h
    by (simp add: app_window_def)
qed

section \<open>The display transform: round trip and NaN\<close>

lemmas convert_arrays =
  sn_to_reflection_coeff_def reflection_coeff_to_impedance_def impedance_to_reflection_coeff_def
  reflection_coeff_to_sn_def np_pow10_def np_log10_def mask_nonpositive_def





lemma fadd_NaN [simp]: "fadd x NaN = NaN"
  by (cases x) simp_all

lemma fmul_NaN [simp]: "fmul x NaN = NaN"
  by (cases x) simp_all

lemma fdiv_NaN [simp]: "fdiv x NaN = NaN"
  by (cases x) simp_all

lemma fsub_NaN [simp]: "fsub NaN x = NaN" "fsub x NaN = NaN"
  by (simp_all add: fsub_def)

lemma fle_NaN [simp]: "\<not> fle NaN x"
  by (simp add: fle_def feq_def)

lemma convert_y_to_length: "length (convert_y_to xs im om r u) = length xs"
  by (cases im; cases om) (simp_all add: convert_arrays)

lemma convert_y_to_NaN:
  assumes "i < length xs" and "xs ! i = NaN"
  shows "convert_y_to xs im om r u ! i = NaN"
  using assms by (cases im; cases om) (simp_all add: convert_arrays)

lemma convert_y_to_log:
  "im \<noteq> IMPEDANCE_LOG_SCALE \<Longrightarrow>
   convert_y_to xs im IMPEDANCE_LOG_SCALE r u
     = np_log10 (mask_nonpositive (convert_y_to xs im IMPEDANCE r u))"
  by (cases im) simp_all

text \<open>
  Claim C6. A conversion from another mode to the log-scale impedance is the logarithm
  of the masked impedance of that conversion; no value of a masked array compares
  \<open><= 0\<close>, and where the impedance does, the result is NaN. Every conversion keeps the
  length of its array and maps a NaN to a NaN, whatever the modes and the reference
  values; the conversions have no error branch.
\<close>

theorem log_impedance_masks_nonpositive:
  "(im \<noteq> IMPEDANCE_LOG_SCALE \<longrightarrow>
      convert_y_to xs im IMPEDANCE_LOG_SCALE r u
        = np_log10 (mask_nonpositive (convert_y_to xs im IMPEDANCE r u)))
   \<and> list_all (\<lambda>z. \<not> fle z (Fin 0)) (mask_nonpositive zs)
   \<and> (\<forall>i<length zs. fle (zs ! i) (Fin 0) \<longrightarrow> np_log10 (mask_nonpositive zs) ! i = NaN)
   \<and> length (convert_y_to xs im om r u) = length xs
   \<and> (\<forall>i<length xs. xs ! i = NaN \<longrightarrow> convert_y_to xs im om r u ! i = NaN)"
proof -
  have m: "list_all (\<lambda>z. \<not> fle z (Fin 0)) (mask_nonpositive zs)"
    by (induction zs) (simp_all add: mask_nonpositive_def)
  have n: "\<forall>i<length zs. fle (zs ! i) (Fin 0) \<longrightarrow> np_log10 (mask_nonpositive zs) ! i = NaN"
    by (simp add: mask_nonpositive_def np_log10_def)
  show ?thesis
    using m n by (simp add: convert_y_to_log convert_y_to_length convert_y_to_NaN)
qed

theorem log_impedance_masks_nonpositive_witness:
  "IMPEDANCE \<noteq> IMPEDANCE_LOG_SCALE
   \<and> convert_y_to [Fin 1, Fin (- 5), Fin 0, NaN] IMPEDANCE IMPEDANCE_LOG_SCALE (Fin 0) (Fin 1)
       = [Fin 0, NaN, NaN, NaN]
   \<and> (1::nat) < length [Fin 1, Fin (- 5), Fin 0, NaN]
   \<and> fle ([Fin 1, Fin (- 5), Fin 0, NaN] ! 1) (Fin 0)
   \<and> np_log10 (mask_nonpositive [Fin 1, Fin (- 5), Fin 0, NaN]) ! 1 = NaN
   \<and> [Fin 0, NaN, NaN, NaN] ! 1 = NaN
   \<and> convert_y_to [Fin 0, NaN, NaN, NaN] IMPEDANCE_LOG_SCALE S_N (Fin 0) (Fin 1) ! 1 = NaN"
proof -
  let ?zs = "[Fin 1, Fin (- 5), Fin 0, NaN]"
  have t: "IMPEDANCE \<noteq> IMPEDANCE_LOG_SCALE" by simp
  have i: "(1::nat) < length ?zs" "fle (?zs ! 1) (Fin 0)"
    by (simp_all add: fle_def)
  have j: "(1::nat) < length [Fin 0, NaN, NaN, NaN]" "[Fin 0, NaN, NaN, NaN] ! 1 = NaN"
    by simp_all
  have c: "convert_y_to ?zs IMPEDANCE IMPEDANCE_LOG_SCALE (Fin 0) (Fin 1)
       = np_log10 (mask_nonpositive (convert_y_to ?zs IMPEDANCE IMPEDANCE (Fin 0) (Fin 1)))"
    using log_impedance_masks_nonpositive[of IMPEDANCE ?zs "Fin 0" "Fin 1" ?zs S_N] t by blast
  have c': "convert_y_to ?zs IMPEDANCE IMPEDANCE_LOG_SCALE (Fin 0) (Fin 1) = [Fin 0, NaN, NaN, NaN]"
    unfolding c by (simp add: np_log10_def mask_nonpositive_def fle_def feq_def)
  have n: "np_log10 (mask_nonpositive ?zs) ! 1 = NaN"
    using log_impedance_masks_nonpositive[of IMPEDANCE ?zs "Fin 0" "Fin 1" ?zs S_N] i by blast
  have d: "convert_y_to [Fin 0, NaN, NaN, NaN] IMPEDANCE_LOG_SCALE S_N (Fin 0) (Fin 1) ! 1 = NaN"
    using log_impedance_masks_nonpositive[of IMPEDANCE_LOG_SCALE "[Fin 0, NaN, NaN, NaN]"
        "Fin 0" "Fin 1" ?zs S_N] j by blast
  show ?thesis using t c' i n j d by blast
qed

section \<open>The cursors: readout and clamping\<close>

lemmas cursor_eval = y_at_x_def np_searchsorted_def np_less_def feq_def fsub_def Let_def

text \<open>
  Claim C7, evaluated in log scale on the x-array \<open>[0, 10]\<close> and the stored
  y-array \<open>[2, 3]\<close> (the logarithms of 100 and 1000). At the first sample, before it
  and after the last sample the readout is the stored logarithm (2, 2 and 3) and not the
  physical value (100, 100 and 1000): these three returns leave the function before the
  power of ten is taken. At the last sample itself and between the samples the readout
  is the power of ten (1000 at \<open>x = 10\<close>).
\<close>

theorem log_scale_readout_evaluation:
  "y_at_x (Some [Fin 0, Fin 10]) (Some [Fin 2, Fin 3]) True (Fin 0) = Inr (Some (Fin 2))
   \<and> y_at_x (Some [Fin 0, Fin 10]) (Some [Fin 2, Fin 3]) True (Fin (- 5)) = Inr (Some (Fin 2))
   \<and> y_at_x (Some [Fin 0, Fin 10]) (Some [Fin 2, Fin 3]) True (Fin 20) = Inr (Some (Fin 3))
   \<and> y_at_x (Some [Fin 0, Fin 10]) (Some [Fin 2, Fin 3]) True (Fin 10) = Inr (Some (Fin 1000))
   \<and> y_at_x (Some [Fin 0, Fin 10]) (Some [Fin 2, Fin 3]) True (Fin (1/1000))
        = Inr (Some (Fin (10 powr (20001/10000))))"
  by (simp add: cursor_eval)

text \<open>
  Claim C9 as stated fails when new data arrives: on a waveform of three samples spaced
  by 1 ps (x-array \<open>[0, 1, 2]\<close>), cursor 1 standing at 1000 is moved to the maximum 2,
  not to the minimum, and cursor 2 standing at -5 is moved to the minimum 0, not to the
  maximum.
\<close>

theorem data_arrival_clamp_counterexample:
  "update_scatter_plot_vcursors (frame [0, 0, 0] 1 16 0 1)
      \<lparr>line_value = Fin 1000, visible = True\<rparr> \<lparr>line_value = Fin (- 5), visible = True\<rparr>
    = ([Fin 0, Fin 1, Fin 2],
       \<lparr>line_value = Fin 2, visible = True\<rparr>, \<lparr>line_value = Fin 0, visible = True\<rparr>)"
  by (simp add: update_scatter_plot_vcursors_def x_as_array_def restrict_vcursor_def frame_def
      fgt_def upt_rec[of 0] upt_rec[of 1] upt_rec[of 2] Let_def)

lemma foldl_fmin_Fin: "foldl fmin (Fin a) (map Fin xs) = Fin (foldl min a xs)"
  by (induction xs arbitrary: a) (simp_all add: fmin_def min_def)

lemma foldl_fmax_Fin: "foldl fmax (Fin a) (map Fin xs) = Fin (foldl max a xs)"
  by (induction xs arbitrary: a) (simp_all add: fmax_def max_def)

lemma foldl_min_Min: "foldl min (a::real) xs = Min (set (a # xs))"
proof -
  have "(\<lambda>x s. min s x) = (min :: real \<Rightarrow> real \<Rightarrow> real)"
    by (intro ext) (simp add: min.commute)
  then have "foldl min a xs = fold min xs a"
    by (simp add: foldl_conv_fold)
  also have "\<dots> = Min (set (a # xs))"
    by (rule Min.set_eq_fold[symmetric])
  finally show ?thesis .
qed

lemma foldl_max_Max: "foldl max (a::real) xs = Max (set (a # xs))"
proof -
  have "(\<lambda>x s. max s x) = (max :: real \<Rightarrow> real \<Rightarrow> real)"
    by (intro ext) (simp add: max.commute)
  then have "foldl max a xs = fold max xs a"
    by (simp add: foldl_conv_fold)
  also have "\<dots> = Max (set (a # xs))"
    by (rule Max.set_eq_fold[symmetric])
  finally show ?thesis .
qed

lemma np_min_Fin: "xs \<noteq> [] \<Longrightarrow> np_min (map Fin xs) = Inr (Fin (Min (set xs)))"
proof (cases xs)
  case Nil
  assume "xs \<noteq> []"
  with Nil show ?thesis by simp
next
  case (Cons a rest)
  have "np_min (map Fin (a # rest)) = Inr (Fin (foldl min a rest))"
    by (simp add: np_min_def foldl_fmin_Fin)
  then show ?thesis unfolding Cons foldl_min_Min .
qed

lemma np_max_Fin: "xs \<noteq> [] \<Longrightarrow> np_max (map Fin xs) = Inr (Fin (Max (set xs)))"
proof (cases xs)
  case Nil
  assume "xs \<noteq> []"
  with Nil show ?thesis by simp
next
  case (Cons a rest)
  have "np_max (map Fin (a # rest)) = Inr (Fin (foldl max a rest))"
    by (simp add: np_max_def foldl_fmax_Fin)
  then show ?thesis unfolding Cons foldl_max_Max .
qed

lemma last_x_as_array:
  assumes "sample msg \<noteq> []" and "sample_spacing_ps msg = Fin s"
  shows "x_as_array msg \<noteq> []"
    and "last (x_as_array msg) = Fin (real (length (sample msg) - 1) * s)"
proof -
  obtain n where n: "length (sample msg) = Suc n"
    using assms(1) by (cases "sample msg") simp_all
  show "x_as_array msg \<noteq> []" using n by (simp add: x_as_array_def)
  show "last (x_as_array msg) = Fin (real (length (sample msg) - 1) * s)"
    using n assms(2) by (simp add: x_as_array_def last_map del: of_nat_Suc)
qed

text \<open>
  Claim C9, as the program has it, for finite positions and x-values. Switching a
  vertical cursor on while a waveform is displayed moves a cursor that stands outside
  \<open>[min(x), max(x)]\<close> to the minimum if it is cursor 1 and to the maximum if it is
  cursor 2, and leaves a cursor inside the range where it is; switching it off moves
  nothing. When new data arrives, either cursor is moved to the nearer end of
  \<open>[0, last x]\<close>: to 0 from below 0, to the last x from above it.
\<close>

theorem vertical_cursor_clamp_policy:
  assumes "xs \<noteq> []" and "line_value cursor = Fin p"
    and "sample msg \<noteq> []" and "sample_spacing_ps msg = Fin s"
    and "line_value vcursor1 = Fin q1" and "line_value vcursor2 = Fin q2"
  shows "show_vcursor1_changed cursor True (Some (map Fin xs)) last_y
           = Inr (cursor\<lparr>visible := True,
                         line_value := (if p < Min (set xs) \<or> Max (set xs) < p
                                        then Fin (Min (set xs)) else Fin p)\<rparr>)
    \<and> show_vcursor2_changed cursor True (Some (map Fin xs)) last_y
           = Inr (cursor\<lparr>visible := True,
                         line_value := (if p < Min (set xs) \<or> Max (set xs) < p
                                        then Fin (Max (set xs)) else Fin p)\<rparr>)
    \<and> show_vcursor1_changed cursor False (Some (map Fin xs)) last_y
           = Inr (cursor\<lparr>visible := False\<rparr>)
    \<and> show_vcursor2_changed cursor False (Some (map Fin xs)) last_y
           = Inr (cursor\<lparr>visible := False\<rparr>)
    \<and> update_scatter_plot_vcursors msg vcursor1 vcursor2
           = (x_as_array msg,
              vcursor1\<lparr>line_value :=
                 (if q1 < 0 then Fin 0
                  else if real (length (sample msg) - 1) * s < q1
                  then Fin (real (length (sample msg) - 1) * s) else Fin q1)\<rparr>,
              vcursor2\<lparr>line_value :=
                 (if q2 < 0 then Fin 0
                  else if real (length (sample msg) - 1) * s < q2
                  then Fin (real (length (sample msg) - 1) * s) else Fin q2)\<rparr>)"
proof -
  have t1: "show_vcursor1_changed cursor True (Some (map Fin xs)) last_y
           = Inr (cursor\<lparr>visible := True,
                         line_value := (if p < Min (set xs) \<or> Max (set xs) < p
                                        then Fin (Min (set xs)) else Fin p)\<rparr>)"
    using assms(1,2)
    by (simp add: show_vcursor1_changed_def toggle_cursor_def np_min_Fin np_max_Fin fgt_def
        Let_def del: Min_gr_iff Max_less_iff)
  have t2: "show_vcursor2_changed cursor True (Some (map Fin xs)) last_y
           = Inr (cursor\<lparr>visible := True,
                         line_value := (if p < Min (set xs) \<or> Max (set xs) < p
                                        then Fin (Max (set xs)) else Fin p)\<rparr>)"
    using assms(1,2)
    by (simp add: show_vcursor2_changed_def toggle_cursor_def np_min_Fin np_max_Fin fgt_def
        Let_def del: Min_gr_iff Max_less_iff)
  have t3: "show_vcursor1_changed cursor False (Some (map Fin xs)) last_y
           = Inr (cursor\<lparr>visible := False\<rparr>)"
    "show_vcursor2_changed cursor False (Some (map Fin xs)) last_y
           = Inr (cursor\<lparr>visible := False\<rparr>)"
    by (simp_all add: show_vcursor1_changed_def show_vcursor2_changed_def toggle_cursor_def)
  have r: "restrict_vcursor (Fin 0) (Fin hi) c
      = c\<lparr>line_value := (if q < 0 then Fin 0 else if hi < q then Fin hi else Fin q)\<rparr>"
    if "line_value c = Fin q" for c q hi
    using that by (simp add: restrict_vcursor_def fgt_def)
  have u: "update_scatter_plot_vcursors msg vcursor1 vcursor2
           = (x_as_array msg,
              restrict_vcursor (Fin 0) (Fin (real (length (sample msg) - 1) * s)) vcursor1,
              restrict_vcursor (Fin 0) (Fin (real (length (sample msg) - 1) * s)) vcursor2)"
    using last_x_as_array[OF assms(3,4)]
    by (simp add: update_scatter_plot_vcursors_def Let_def)
  show ?thesis
    unfolding u r[OF assms(5)] r[OF assms(6)] using t1 t2 t3 by simp
qed

theorem vertical_cursor_clamp_policy_witness:
  "[0, 1, 2 :: real] \<noteq> []
   \<and> line_value \<lparr>line_value = Fin 1000, visible = False\<rparr> = Fin 1000
   \<and> sample (frame [0, 0, 0] 1 16 0 1) \<noteq> []
   \<and> sample_spacing_ps (frame [0, 0, 0] 1 16 0 1) = Fin 1
   \<and> line_value \<lparr>line_value = Fin (- 5), visible = True\<rparr> = Fin (- 5)
   \<and> show_vcursor1_changed \<lparr>line_value = Fin 1000, visible = False\<rparr> True
        (Some (map Fin [0, 1, 2])) None = Inr \<lparr>line_value = Fin 0, visible = True\<rparr>
   \<and> show_vcursor2_changed \<lparr>line_value = Fin 1000, visible = False\<rparr> True
        (Some (map Fin [0, 1, 2])) None = Inr \<lparr>line_value = Fin 2, visible = True\<rparr>
   \<and> update_scatter_plot_vcursors (frame [0, 0, 0] 1 16 0 1)
        \<lparr>line_value = Fin 1000, visible = False\<rparr> \<lparr>line_value = Fin (- 5), visible = True\<rparr>
      = (x_as_array (frame [0, 0, 0] 1 16 0 1),
         \<lparr>line_value = Fin 2, visible = False\<rparr>, \<lparr>line_value = Fin 0, visible = True\<rparr>)"
proof -
  have h: "[0, 1, 2 :: real] \<noteq> []"
    "line_value \<lparr>line_value = Fin 1000, visible = False\<rparr> = Fin 1000"
    "sample (frame [0, 0, 0] 1 16 0 1) \<noteq> []"
    "sample_spacing_ps (frame [0, 0, 0] 1 16 0 1) = Fin 1"
    "line_value \<lparr>line_value = Fin 1000, visible = False\<rparr> = Fin 1000"
    "line_value \<lparr>line_value = Fin (- 5), visible = True\<rparr> = Fin (- 5)"
    by (simp_all add: frame_def)
  have n: "length (sample (frame [0, 0, 0] 1 16 0 1)) = 3"
    by (simp add: frame_def)
  show ?thesis
    using vertical_cursor_clamp_policy[OF h, of None] h by (simp add: n)
qed

section \<open>Preset names\<close>

lemma to_double_eval:
  assumes "q \<noteq> 0" and "binary_exponent q = e" and "- 1022 \<le> e"
    and "of_int m - 1 / 2 < q * pow2 (52 - e)" and "q * pow2 (52 - e) < of_int m + 1 / 2"
    and "of_int m * pow2 (e - 52) = v" and "v \<le> 256"
  shows "to_double q = Fin (of_rat v)"
proof -
  have r: "round_half_even (q * pow2 (52 - e)) = m"
    using assms(4,5) by (rule round_half_even_between)
  have "(2::rat) ^ 8 \<le> 2 ^ 1024"
    by (rule power_increasing) simp_all
  then have o: "\<not> (2::rat) ^ 1024 \<le> v" using assms(7) by simp
  have m: "max e (- 1022) = e" using assms(3) by simp
  show ?thesis
    unfolding to_double_def Let_def assms(2) m r assms(6) using assms(1) o by simp
qed

lemma format_1f_eval:
  assumes "0 \<le> r" and "of_int t - 1 / 2 < r * 10" and "r * 10 < of_int t + 1 / 2"
  shows "format_1f (Fin r) = str_of_nat (nat t div 10) @ ''.'' @ str_of_nat (nat t mod 10)"
proof -
  have "round_half_even (\<bar>r\<bar> * 10) = t"
    using assms by (intro round_half_even_between) simp_all
  then show ?thesis using assms(1) by (simp add: format_1f_def Let_def)
qed

lemma float_3_2: "float_of_str ''3.2'' = Fin (3602879701896397 / 1125899906842624)"
proof -
  have d: "decimal_value ''3.2'' = 16 / 5" by code_simp
  have e: "binary_exponent (16 / 5) = 1" by code_simp
  have "to_double (16 / 5) = Fin (of_rat (3602879701896397 / 1125899906842624))"
    by (rule to_double_eval[where e = "1" and m = 7205759403792794])
       (simp_all add: e pow2_def)
  then show ?thesis by (simp add: float_of_str_def d of_rat_divide)
qed

lemma format_3_2: "format_1f (float_of_str ''3.2'') = ''3.2''"
proof -
  have "format_1f (Fin (3602879701896397 / 1125899906842624))
      = str_of_nat (nat 32 div 10) @ ''.'' @ str_of_nat (nat 32 mod 10)"
    by (rule format_1f_eval) simp_all
  also have "\<dots> = ''3.2''" by code_simp
  finally show ?thesis by (simp only: float_3_2)
qed

lemma float_0_2: "float_of_str ''0.2'' = Fin (3602879701896397 / 18014398509481984)"
proof -
  have d: "decimal_value ''0.2'' = 1 / 5" by code_simp
  have e: "binary_exponent (1 / 5) = - 3" by code_simp
  have "to_double (1 / 5) = Fin (of_rat (3602879701896397 / 18014398509481984))"
    by (rule to_double_eval[where e = "- 3" and m = 7205759403792794])
       (simp_all add: e pow2_def)
  then show ?thesis by (simp add: float_of_str_def d of_rat_divide)
qed

lemma format_0_2: "format_1f (float_of_str ''0.2'') = ''0.2''"
proof -
  have "format_1f (Fin (3602879701896397 / 18014398509481984))
      = str_of_nat (nat 2 div 10) @ ''.'' @ str_of_nat (nat 2 mod 10)"
    by (rule format_1f_eval) simp_all
  also have "\<dots> = ''0.2''" by code_simp
  finally show ?thesis by (simp only: float_0_2)
qed

lemma float_6_4: "float_of_str ''6.4'' = Fin (3602879701896397 / 562949953421312)"
proof -
  have d: "decimal_value ''6.4'' = 32 / 5" by code_simp
  have e: "binary_exponent (32 / 5) = 2" by code_simp
  have "to_double (32 / 5) = Fin (of_rat (3602879701896397 / 562949953421312))"
    by (rule to_double_eval[where e = "2" and m = 7205759403792794])
       (simp_all add: e pow2_def)
  then show ?thesis by (simp add: float_of_str_def d of_rat_divide)
qed

lemma format_6_4: "format_1f (float_of_str ''6.4'') = ''6.4''"
proof -
  have "format_1f (Fin (3602879701896397 / 562949953421312))
      = str_of_nat (nat 64 div 10) @ ''.'' @ str_of_nat (nat 64 mod 10)"
    by (rule format_1f_eval) simp_all
  also have "\<dots> = ''6.4''" by code_simp
  finally show ?thesis by (simp only: float_6_4)
qed

lemma float_0_4: "float_of_str ''0.4'' = Fin (3602879701896397 / 9007199254740992)"
proof -
  have d: "decimal_value ''0.4'' = 2 / 5" by code_simp
  have e: "binary_exponent (2 / 5) = - 2" by code_simp
  have "to_double (2 / 5) = Fin (of_rat (3602879701896397 / 9007199254740992))"
    by (rule to_double_eval[where e = "- 2" and m = 7205759403792794])
       (simp_all add: e pow2_def)
  then show ?thesis by (simp add: float_of_str_def d of_rat_divide)
qed

lemma format_0_4: "format_1f (float_of_str ''0.4'') = ''0.4''"
proof -
  have "format_1f (Fin (3602879701896397 / 9007199254740992))
      = str_of_nat (nat 4 div 10) @ ''.'' @ str_of_nat (nat 4 mod 10)"
    by (rule format_1f_eval) simp_all
  also have "\<dots> = ''0.4''" by code_simp
  finally show ?thesis by (simp only: float_0_4)
qed

lemma float_12_8: "float_of_str ''12.8'' = Fin (3602879701896397 / 281474976710656)"
proof -
  have d: "decimal_value ''12.8'' = 64 / 5" by code_simp
  have e: "binary_exponent (64 / 5) = 3" by code_simp
  have "to_double (64 / 5) = Fin (of_rat (3602879701896397 / 281474976710656))"
    by (rule to_double_eval[where e = "3" and m = 7205759403792794])
       (simp_all add: e pow2_def)
  then show ?thesis by (simp add: float_of_str_def d of_rat_divide)
qed

lemma format_12_8: "format_1f (float_of_str ''12.8'') = ''12.8''"
proof -
  have "format_1f (Fin (3602879701896397 / 281474976710656))
      = str_of_nat (nat 128 div 10) @ ''.'' @ str_of_nat (nat 128 mod 10)"
    by (rule format_1f_eval) simp_all
  also have "\<dots> = ''12.8''" by code_simp
  finally show ?thesis by (simp only: float_12_8)
qed

lemma float_0_8: "float_of_str ''0.8'' = Fin (3602879701896397 / 4503599627370496)"
proof -
  have d: "decimal_value ''0.8'' = 4 / 5" by code_simp
  have e: "binary_exponent (4 / 5) = - 1" by code_simp
  have "to_double (4 / 5) = Fin (of_rat (3602879701896397 / 4503599627370496))"
    by (rule to_double_eval[where e = "- 1" and m = 7205759403792794])
       (simp_all add: e pow2_def)
  then show ?thesis by (simp add: float_of_str_def d of_rat_divide)
qed

lemma format_0_8: "format_1f (float_of_str ''0.8'') = ''0.8''"
proof -
  have "format_1f (Fin (3602879701896397 / 4503599627370496))
      = str_of_nat (nat 8 div 10) @ ''.'' @ str_of_nat (nat 8 mod 10)"
    by (rule format_1f_eval) simp_all
  also have "\<dots> = ''0.8''" by code_simp
  finally show ?thesis by (simp only: float_0_8)
qed

lemma float_16_0: "float_of_str ''16.0'' = Fin (16)"
proof -
  have d: "decimal_value ''16.0'' = 16" by code_simp
  have e: "binary_exponent (16) = 4" by code_simp
  have "to_double (16) = Fin (of_rat (16))"
    by (rule to_double_eval[where e = "4" and m = 4503599627370496])
       (simp_all add: e pow2_def)
  then show ?thesis by (simp add: float_of_str_def d of_rat_divide)
qed

lemma format_16_0: "format_1f (float_of_str ''16.0'') = ''16.0''"
proof -
  have "format_1f (Fin (16))
      = str_of_nat (nat 160 div 10) @ ''.'' @ str_of_nat (nat 160 mod 10)"
    by (rule format_1f_eval) simp_all
  also have "\<dots> = ''16.0''" by code_simp
  finally show ?thesis by (simp only: float_16_0)
qed

lemma float_1_0: "float_of_str ''1.0'' = Fin (1)"
proof -
  have d: "decimal_value ''1.0'' = 1" by code_simp
  have e: "binary_exponent (1) = 0" by code_simp
  have "to_double (1) = Fin (of_rat (1))"
    by (rule to_double_eval[where e = "0" and m = 4503599627370496])
       (simp_all add: e pow2_def)
  then show ?thesis by (simp add: float_of_str_def d of_rat_divide)
qed

lemma format_1_0: "format_1f (float_of_str ''1.0'') = ''1.0''"
proof -
  have "format_1f (Fin (1))
      = str_of_nat (nat 10 div 10) @ ''.'' @ str_of_nat (nat 10 mod 10)"
    by (rule format_1f_eval) simp_all
  also have "\<dots> = ''1.0''" by code_simp
  finally show ?thesis by (simp only: float_1_0)
qed

lemma float_32_0: "float_of_str ''32.0'' = Fin (32)"
proof -
  have d: "decimal_value ''32.0'' = 32" by code_simp
  have e: "binary_exponent (32) = 5" by code_simp
  have "to_double (32) = Fin (of_rat (32))"
    by (rule to_double_eval[where e = "5" and m = 4503599627370496])
       (simp_all add: e pow2_def)
  then show ?thesis by (simp add: float_of_str_def d of_rat_divide)
qed

lemma format_32_0: "format_1f (float_of_str ''32.0'') = ''32.0''"
proof -
  have "format_1f (Fin (32))
      = str_of_nat (nat 320 div 10) @ ''.'' @ str_of_nat (nat 320 mod 10)"
    by (rule format_1f_eval) simp_all
  also have "\<dots> = ''32.0''" by code_simp
  finally show ?thesis by (simp only: float_32_0)
qed

lemma float_2_0: "float_of_str ''2.0'' = Fin (2)"
proof -
  have d: "decimal_value ''2.0'' = 2" by code_simp
  have e: "binary_exponent (2) = 1" by code_simp
  have "to_double (2) = Fin (of_rat (2))"
    by (rule to_double_eval[where e = "1" and m = 4503599627370496])
       (simp_all add: e pow2_def)
  then show ?thesis by (simp add: float_of_str_def d of_rat_divide)
qed

lemma format_2_0: "format_1f (float_of_str ''2.0'') = ''2.0''"
proof -
  have "format_1f (Fin (2))
      = str_of_nat (nat 20 div 10) @ ''.'' @ str_of_nat (nat 20 mod 10)"
    by (rule format_1f_eval) simp_all
  also have "\<dots> = ''2.0''" by code_simp
  finally show ?thesis by (simp only: float_2_0)
qed

lemma float_64_0: "float_of_str ''64.0'' = Fin (64)"
proof -
  have d: "decimal_value ''64.0'' = 64" by code_simp
  have e: "binary_exponent (64) = 6" by code_simp
  have "to_double (64) = Fin (of_rat (64))"
    by (rule to_double_eval[where e = "6" and m = 4503599627370496])
       (simp_all add: e pow2_def)
  then show ?thesis by (simp add: float_of_str_def d of_rat_divide)
qed

lemma format_64_0: "format_1f (float_of_str ''64.0'') = ''64.0''"
proof -
  have "format_1f (Fin (64))
      = str_of_nat (nat 640 div 10) @ ''.'' @ str_of_nat (nat 640 mod 10)"
    by (rule format_1f_eval) simp_all
  also have "\<dots> = ''64.0''" by code_simp
  finally show ?thesis by (simp only: float_64_0)
qed

lemma float_4_0: "float_of_str ''4.0'' = Fin (4)"
proof -
  have d: "decimal_value ''4.0'' = 4" by code_simp
  have e: "binary_exponent (4) = 2" by code_simp
  have "to_double (4) = Fin (of_rat (4))"
    by (rule to_double_eval[where e = "2" and m = 4503599627370496])
       (simp_all add: e pow2_def)
  then show ?thesis by (simp add: float_of_str_def d of_rat_divide)
qed

lemma format_4_0: "format_1f (float_of_str ''4.0'') = ''4.0''"
proof -
  have "format_1f (Fin (4))
      = str_of_nat (nat 40 div 10) @ ''.'' @ str_of_nat (nat 40 mod 10)"
    by (rule format_1f_eval) simp_all
  also have "\<dots> = ''4.0''" by code_simp
  finally show ?thesis by (simp only: float_4_0)
qed

lemma float_80_0: "float_of_str ''80.0'' = Fin (80)"
proof -
  have d: "decimal_value ''80.0'' = 80" by code_simp
  have e: "binary_exponent (80) = 6" by code_simp
  have "to_double (80) = Fin (of_rat (80))"
    by (rule to_double_eval[where e = "6" and m = 5629499534213120])
       (simp_all add: e pow2_def)
  then show ?thesis by (simp add: float_of_str_def d of_rat_divide)
qed

lemma format_80_0: "format_1f (float_of_str ''80.0'') = ''80.0''"
proof -
  have "format_1f (Fin (80))
      = str_of_nat (nat 800 div 10) @ ''.'' @ str_of_nat (nat 800 mod 10)"
    by (rule format_1f_eval) simp_all
  also have "\<dots> = ''80.0''" by code_simp
  finally show ?thesis by (simp only: float_80_0)
qed

lemma float_5_0: "float_of_str ''5.0'' = Fin (5)"
proof -
  have d: "decimal_value ''5.0'' = 5" by code_simp
  have e: "binary_exponent (5) = 2" by code_simp
  have "to_double (5) = Fin (of_rat (5))"
    by (rule to_double_eval[where e = "2" and m = 5629499534213120])
       (simp_all add: e pow2_def)
  then show ?thesis by (simp add: float_of_str_def d of_rat_divide)
qed

lemma format_5_0: "format_1f (float_of_str ''5.0'') = ''5.0''"
proof -
  have "format_1f (Fin (5))
      = str_of_nat (nat 50 div 10) @ ''.'' @ str_of_nat (nat 50 mod 10)"
    by (rule format_1f_eval) simp_all
  also have "\<dots> = ''5.0''" by code_simp
  finally show ?thesis by (simp only: float_5_0)
qed

lemma float_128_0: "float_of_str ''128.0'' = Fin (128)"
proof -
  have d: "decimal_value ''128.0'' = 128" by code_simp
  have e: "binary_exponent (128) = 7" by code_simp
  have "to_double (128) = Fin (of_rat (128))"
    by (rule to_double_eval[where e = "7" and m = 4503599627370496])
       (simp_all add: e pow2_def)
  then show ?thesis by (simp add: float_of_str_def d of_rat_divide)
qed

lemma format_128_0: "format_1f (float_of_str ''128.0'') = ''128.0''"
proof -
  have "format_1f (Fin (128))
      = str_of_nat (nat 1280 div 10) @ ''.'' @ str_of_nat (nat 1280 mod 10)"
    by (rule format_1f_eval) simp_all
  also have "\<dots> = ''128.0''" by code_simp
  finally show ?thesis by (simp only: float_128_0)
qed

lemma float_8_0: "float_of_str ''8.0'' = Fin (8)"
proof -
  have d: "decimal_value ''8.0'' = 8" by code_simp
  have e: "binary_exponent (8) = 3" by code_simp
  have "to_double (8) = Fin (of_rat (8))"
    by (rule to_double_eval[where e = "3" and m = 4503599627370496])
       (simp_all add: e pow2_def)
  then show ?thesis by (simp add: float_of_str_def d of_rat_divide)
qed

lemma format_8_0: "format_1f (float_of_str ''8.0'') = ''8.0''"
proof -
  have "format_1f (Fin (8))
      = str_of_nat (nat 80 div 10) @ ''.'' @ str_of_nat (nat 80 mod 10)"
    by (rule format_1f_eval) simp_all
  also have "\<dots> = ''8.0''" by code_simp
  finally show ?thesis by (simp only: float_8_0)
qed

lemma float_160_0: "float_of_str ''160.0'' = Fin (160)"
proof -
  have d: "decimal_value ''160.0'' = 160" by code_simp
  have e: "binary_exponent (160) = 7" by code_simp
  have "to_double (160) = Fin (of_rat (160))"
    by (rule to_double_eval[where e = "7" and m = 5629499534213120])
       (simp_all add: e pow2_def)
  then show ?thesis by (simp add: float_of_str_def d of_rat_divide)
qed

lemma format_160_0: "format_1f (float_of_str ''160.0'') = ''160.0''"
proof -
  have "format_1f (Fin (160))
      = str_of_nat (nat 1600 div 10) @ ''.'' @ str_of_nat (nat 1600 mod 10)"
    by (rule format_1f_eval) simp_all
  also have "\<dots> = ''160.0''" by code_simp
  finally show ?thesis by (simp only: float_160_0)
qed

lemma float_10_0: "float_of_str ''10.0'' = Fin (10)"
proof -
  have d: "decimal_value ''10.0'' = 10" by code_simp
  have e: "binary_exponent (10) = 3" by code_simp
  have "to_double (10) = Fin (of_rat (10))"
    by (rule to_double_eval[where e = "3" and m = 5629499534213120])
       (simp_all add: e pow2_def)
  then show ?thesis by (simp add: float_of_str_def d of_rat_divide)
qed

lemma format_10_0: "format_1f (float_of_str ''10.0'') = ''10.0''"
proof -
  have "format_1f (Fin (10))
      = str_of_nat (nat 100 div 10) @ ''.'' @ str_of_nat (nat 100 mod 10)"
    by (rule format_1f_eval) simp_all
  also have "\<dots> = ''10.0''" by code_simp
  finally show ?thesis by (simp only: float_10_0)
qed

lemma float_50_0: "float_of_str ''50.0'' = Fin (50)"
proof -
  have d: "decimal_value ''50.0'' = 50" by code_simp
  have e: "binary_exponent (50) = 5" by code_simp
  have "to_double (50) = Fin (of_rat (50))"
    by (rule to_double_eval[where e = "5" and m = 7036874417766400])
       (simp_all add: e pow2_def)
  then show ?thesis by (simp add: float_of_str_def d of_rat_divide)
qed

lemma format_50_0: "format_1f (float_of_str ''50.0'') = ''50.0''"
proof -
  have "format_1f (Fin (50))
      = str_of_nat (nat 500 div 10) @ ''.'' @ str_of_nat (nat 500 mod 10)"
    by (rule format_1f_eval) simp_all
  also have "\<dots> = ''50.0''" by code_simp
  finally show ?thesis by (simp only: float_50_0)
qed

lemma float_100_0: "float_of_str ''100.0'' = Fin (100)"
proof -
  have d: "decimal_value ''100.0'' = 100" by code_simp
  have e: "binary_exponent (100) = 6" by code_simp
  have "to_double (100) = Fin (of_rat (100))"
    by (rule to_double_eval[where e = "6" and m = 7036874417766400])
       (simp_all add: e pow2_def)
  then show ?thesis by (simp add: float_of_str_def d of_rat_divide)
qed

lemma format_100_0: "format_1f (float_of_str ''100.0'') = ''100.0''"
proof -
  have "format_1f (Fin (100))
      = str_of_nat (nat 1000 div 10) @ ''.'' @ str_of_nat (nat 1000 mod 10)"
    by (rule format_1f_eval) simp_all
  also have "\<dots> = ''100.0''" by code_simp
  finally show ?thesis by (simp only: float_100_0)
qed

lemma float_16: "float_of_str ''16'' = Fin (16)"
proof -
  have d: "decimal_value ''16'' = 16" by code_simp
  have e: "binary_exponent (16) = 4" by code_simp
  have "to_double (16) = Fin (of_rat (16))"
    by (rule to_double_eval[where e = "4" and m = 4503599627370496])
       (simp_all add: e pow2_def)
  then show ?thesis by (simp add: float_of_str_def d of_rat_divide)
qed

lemma format_16: "format_1f (float_of_str ''16'') = ''16.0''"
proof -
  have "format_1f (Fin (16))
      = str_of_nat (nat 160 div 10) @ ''.'' @ str_of_nat (nat 160 mod 10)"
    by (rule format_1f_eval) simp_all
  also have "\<dots> = ''16.0''" by code_simp
  finally show ?thesis by (simp only: float_16)
qed

lemma float_1: "float_of_str ''1'' = Fin (1)"
proof -
  have d: "decimal_value ''1'' = 1" by code_simp
  have e: "binary_exponent (1) = 0" by code_simp
  have "to_double (1) = Fin (of_rat (1))"
    by (rule to_double_eval[where e = "0" and m = 4503599627370496])
       (simp_all add: e pow2_def)
  then show ?thesis by (simp add: float_of_str_def d of_rat_divide)
qed

lemma format_1: "format_1f (float_of_str ''1'') = ''1.0''"
proof -
  have "format_1f (Fin (1))
      = str_of_nat (nat 10 div 10) @ ''.'' @ str_of_nat (nat 10 mod 10)"
    by (rule format_1f_eval) simp_all
  also have "\<dots> = ''1.0''" by code_simp
  finally show ?thesis by (simp only: float_1)
qed

lemma float_3_15: "float_of_str ''3.15'' = Fin (7093169413108531 / 2251799813685248)"
proof -
  have d: "decimal_value ''3.15'' = 63 / 20" by code_simp
  have e: "binary_exponent (63 / 20) = 1" by code_simp
  have "to_double (63 / 20) = Fin (of_rat (7093169413108531 / 2251799813685248))"
    by (rule to_double_eval[where e = "1" and m = 7093169413108531])
       (simp_all add: e pow2_def)
  then show ?thesis by (simp add: float_of_str_def d of_rat_divide)
qed

lemma format_3_15: "format_1f (float_of_str ''3.15'') = ''3.1''"
proof -
  have "format_1f (Fin (7093169413108531 / 2251799813685248))
      = str_of_nat (nat 31 div 10) @ ''.'' @ str_of_nat (nat 31 mod 10)"
    by (rule format_1f_eval) simp_all
  also have "\<dots> = ''3.1''" by code_simp
  finally show ?thesis by (simp only: float_3_15)
qed

lemma float_0_1: "float_of_str ''0.1'' = Fin (3602879701896397 / 36028797018963968)"
proof -
  have d: "decimal_value ''0.1'' = 1 / 10" by code_simp
  have e: "binary_exponent (1 / 10) = - 4" by code_simp
  have "to_double (1 / 10) = Fin (of_rat (3602879701896397 / 36028797018963968))"
    by (rule to_double_eval[where e = "- 4" and m = 7205759403792794])
       (simp_all add: e pow2_def)
  then show ?thesis by (simp add: float_of_str_def d of_rat_divide)
qed

lemma format_0_1: "format_1f (float_of_str ''0.1'') = ''0.1''"
proof -
  have "format_1f (Fin (3602879701896397 / 36028797018963968))
      = str_of_nat (nat 1 div 10) @ ''.'' @ str_of_nat (nat 1 mod 10)"
    by (rule format_1f_eval) simp_all
  also have "\<dots> = ''0.1''" by code_simp
  finally show ?thesis by (simp only: float_0_1)
qed

lemma numbers_3_2_0_2: "findall_numbers ''3.2ns/0.2ps'' = [''3.2'', ''0.2'']"
  by code_simp

lemma key_3_2_0_2:
  "preset_key (float_of_str ''3.2'') (float_of_str ''0.2'') = ''3.2ns/0.2ps''"
  by (simp add: preset_key_def format_3_2 format_0_2)

lemma numbers_6_4_0_4: "findall_numbers ''6.4ns/0.4ps'' = [''6.4'', ''0.4'']"
  by code_simp

lemma key_6_4_0_4:
  "preset_key (float_of_str ''6.4'') (float_of_str ''0.4'') = ''6.4ns/0.4ps''"
  by (simp add: preset_key_def format_6_4 format_0_4)

lemma numbers_12_8_0_8: "findall_numbers ''12.8ns/0.8ps'' = [''12.8'', ''0.8'']"
  by code_simp

lemma key_12_8_0_8:
  "preset_key (float_of_str ''12.8'') (float_of_str ''0.8'') = ''12.8ns/0.8ps''"
  by (simp add: preset_key_def format_12_8 format_0_8)

lemma numbers_16_0_1_0: "findall_numbers ''16.0ns/1.0ps'' = [''16.0'', ''1.0'']"
  by code_simp

lemma key_16_0_1_0:
  "preset_key (float_of_str ''16.0'') (float_of_str ''1.0'') = ''16.0ns/1.0ps''"
  by (simp add: preset_key_def format_16_0 format_1_0)

lemma numbers_32_0_2_0: "findall_numbers ''32.0ns/2.0ps'' = [''32.0'', ''2.0'']"
  by code_simp

lemma key_32_0_2_0:
  "preset_key (float_of_str ''32.0'') (float_of_str ''2.0'') = ''32.0ns/2.0ps''"
  by (simp add: preset_key_def format_32_0 format_2_0)

lemma numbers_64_0_4_0: "findall_numbers ''64.0ns/4.0ps'' = [''64.0'', ''4.0'']"
  by code_simp

lemma key_64_0_4_0:
  "preset_key (float_of_str ''64.0'') (float_of_str ''4.0'') = ''64.0ns/4.0ps''"
  by (simp add: preset_key_def format_64_0 format_4_0)

lemma numbers_80_0_5_0: "findall_numbers ''80.0ns/5.0ps'' = [''80.0'', ''5.0'']"
  by code_simp

lemma key_80_0_5_0:
  "preset_key (float_of_str ''80.0'') (float_of_str ''5.0'') = ''80.0ns/5.0ps''"
  by (simp add: preset_key_def format_80_0 format_5_0)

lemma numbers_128_0_8_0: "findall_numbers ''128.0ns/8.0ps'' = [''128.0'', ''8.0'']"
  by code_simp

lemma key_128_0_8_0:
  "preset_key (float_of_str ''128.0'') (float_of_str ''8.0'') = ''128.0ns/8.0ps''"
  by (simp add: preset_key_def format_128_0 format_8_0)

lemma numbers_160_0_10_0: "findall_numbers ''160.0ns/10.0ps'' = [''160.0'', ''10.0'']"
  by code_simp

lemma key_160_0_10_0:
  "preset_key (float_of_str ''160.0'') (float_of_str ''10.0'') = ''160.0ns/10.0ps''"
  by (simp add: preset_key_def format_160_0 format_10_0)

lemma numbers_16_0_50_0: "findall_numbers ''16.0ns/50.0ps'' = [''16.0'', ''50.0'']"
  by code_simp

lemma key_16_0_50_0:
  "preset_key (float_of_str ''16.0'') (float_of_str ''50.0'') = ''16.0ns/50.0ps''"
  by (simp add: preset_key_def format_16_0 format_50_0)

lemma numbers_16_0_100_0: "findall_numbers ''16.0ns/100.0ps'' = [''16.0'', ''100.0'']"
  by code_simp

lemma key_16_0_100_0:
  "preset_key (float_of_str ''16.0'') (float_of_str ''100.0'') = ''16.0ns/100.0ps''"
  by (simp add: preset_key_def format_16_0 format_100_0)

lemmas key_regenerated = key_3_2_0_2 key_6_4_0_4 key_12_8_0_8 key_16_0_1_0 key_32_0_2_0 key_64_0_4_0 key_80_0_5_0 key_128_0_8_0 key_160_0_10_0 key_16_0_50_0 key_16_0_100_0

lemmas key_numbers = numbers_3_2_0_2 numbers_6_4_0_4 numbers_12_8_0_8 numbers_16_0_1_0 numbers_32_0_2_0 numbers_64_0_4_0 numbers_80_0_5_0 numbers_128_0_8_0 numbers_160_0_10_0 numbers_16_0_50_0 numbers_16_0_100_0

lemma keys_distinct: "distinct (map fst PRESET_ALIASES)"
  by (simp add: PRESET_ALIASES_def)

lemma map_of_table:
  "map_of PRESET_ALIASES k = Some p \<longleftrightarrow> (k, p) \<in> set PRESET_ALIASES"
  using keys_distinct by (rule map_of_eq_Some_iff)

lemma map_of_table_None:
  "map_of PRESET_ALIASES k = None \<longleftrightarrow> k \<notin> fst ` set PRESET_ALIASES"
  by (rule map_of_eq_None_iff)

lemma normalize_preset_Inr_iff:
  "normalize_preset s = Inr p \<longleftrightarrow>
     (lower (strip s), p) \<in> set PRESET_ALIASES
     \<or> (lower (strip s) \<notin> fst ` set PRESET_ALIASES
          \<and> (\<exists>n1 n2 rest. findall_numbers (lower (strip s)) = n1 # n2 # rest
                 \<and> (preset_key (float_of_str n1) (float_of_str n2), p) \<in> set PRESET_ALIASES))"
  unfolding map_of_table[symmetric] map_of_table_None[symmetric]
  by (auto simp: normalize_preset_def Let_def split: option.splits list.splits)

lemma normalize_preset_cases:
  "(\<exists>p. normalize_preset s = Inr p)
     \<or> normalize_preset s = Inl (ValueError (unrecognized_preset s))"
  by (auto simp: normalize_preset_def Let_def split: option.splits list.splits)

lemma join_comma_contains:
  "x \<in> set xs \<Longrightarrow> \<exists>a b. join_comma xs = a @ x @ b"
proof (induction xs rule: join_comma.induct)
  case 1
  then show ?case by simp
next
  case (2 y)
  then have "join_comma [y] = [] @ x @ []" by simp
  then show ?case by blast
next
  case (3 y z rest)
  show ?case
  proof (cases "x = y")
    case True
    then have "join_comma (y # z # rest) = [] @ x @ ('', '' @ join_comma (z # rest))"
      by simp
    then show ?thesis by blast
  next
    case False
    then obtain a b where "join_comma (z # rest) = a @ x @ b"
      using 3 by auto
    then have "join_comma (y # z # rest) = (y @ '', '' @ a) @ x @ b"
      by simp
    then show ?thesis by blast
  qed
qed

lemma message_lists_key:
  assumes "(k, p) \<in> set PRESET_ALIASES"
  shows "\<exists>a b. unrecognized_preset s = a @ k @ b"
proof -
  have "k \<in> set (sort (map fst PRESET_ALIASES))"
    using assms by force
  then obtain a b where "join_comma (sort (map fst PRESET_ALIASES)) = a @ k @ b"
    using join_comma_contains by blast
  then have "unrecognized_preset s
      = (''Unrecognized preset '' @ [CHR 0x27] @ s @ [CHR 0x27] @ ''. Try one of: '' @ a) @ k @ b"
    by (simp add: unrecognized_preset_def)
  then show ?thesis by blast
qed

lemma keys_regenerate:
  assumes "(k, p) \<in> set PRESET_ALIASES"
  shows "\<exists>n1 n2. findall_numbers k = [n1, n2]
           \<and> preset_key (float_of_str n1) (float_of_str n2) = k"
  using assms unfolding PRESET_ALIASES_def
  by (auto simp: key_numbers key_regenerated)


lemma lookups:
  "map_of PRESET_ALIASES ''16.0ns/1.0ps''
     = Some TDR_CONFIGURATION_PRESET_PULSE_PERIOD_16P0_NS_SAMPLE_SPACING_1P0_PS"
  "map_of PRESET_ALIASES ''3.2ns/0.2ps''
     = Some TDR_CONFIGURATION_PRESET_PULSE_PERIOD_3P2_NS_SAMPLE_SPACING_0P2_PS"
  "map_of PRESET_ALIASES ''16ns/1ps'' = None"
  "map_of PRESET_ALIASES ''16/1'' = None"
  "map_of PRESET_ALIASES ''3.2/0.2'' = None"
  "map_of PRESET_ALIASES ''3.15/0.2'' = None"
  "map_of PRESET_ALIASES ''3.1ns/0.2ps'' = None"
  "map_of PRESET_ALIASES ''xyz'' = None"
  "map_of PRESET_ALIASES ''7'' = None"
  by code_simp+

lemma normal_forms:
  "lower (strip ''16.0ns/1.0ps'') = ''16.0ns/1.0ps''"
  "lower (strip ''16ns/1ps'') = ''16ns/1ps''"
  "lower (strip ''16/1'') = ''16/1''"
  "lower (strip ''3.2/0.2'') = ''3.2/0.2''"
  "lower (strip ''3.15/0.2'') = ''3.15/0.2''"
  "lower (strip ''xyz'') = ''xyz''"
  "lower (strip ''7'') = ''7''"
  by code_simp+

lemma numbers_found:
  "findall_numbers ''16ns/1ps'' = [''16'', ''1'']"
  "findall_numbers ''16/1'' = [''16'', ''1'']"
  "findall_numbers ''3.2/0.2'' = [''3.2'', ''0.2'']"
  "findall_numbers ''3.15/0.2'' = [''3.15'', ''0.2'']"
  "findall_numbers ''xyz'' = []"
  "findall_numbers ''7'' = [''7'']"
  by code_simp+

lemma key_16_1: "preset_key (float_of_str ''16'') (float_of_str ''1'') = ''16.0ns/1.0ps''"
  by (simp add: preset_key_def format_16 format_1)

lemma key_3_15: "preset_key (float_of_str ''3.15'') (float_of_str ''0.2'') = ''3.1ns/0.2ps''"
  by (simp add: preset_key_def format_3_15 format_0_2)

lemma sorted_keys:
  "join_comma (sort (map fst PRESET_ALIASES)) =
     ''12.8ns/0.8ps, 128.0ns/8.0ps, 16.0ns/1.0ps, 16.0ns/100.0ps, 16.0ns/50.0ps, 160.0ns/10.0ps, 3.2ns/0.2ps, 32.0ns/2.0ps, 6.4ns/0.4ps, 64.0ns/4.0ps, 80.0ns/5.0ps''"
  by code_simp

lemma normalize_xyz:
  "normalize_preset ''xyz'' = Inl (ValueError (unrecognized_preset ''xyz''))"
  by (simp add: normalize_preset_def Let_def normal_forms lookups numbers_found)

text \<open>
  Claim C8. For every name: it resolves to a preset exactly when its stripped,
  lower-cased form is a key of the table with that preset, or is no key, holds at least
  two numbers, and the key regenerated from the first two of them is a key with that
  preset. Every other name, any with fewer than two numbers that is no key among them,
  gives ValueError, and \<open>configure_tdr_preset\<close> then ends with that error before any
  remote call, whatever the instrument would have answered; a name that resolves has the
  call for its preset issued first. The message of the error holds every key of the
  table, and every key of the table is regenerated from its own two numbers. So
  \<open>16.0ns/1.0ps\<close>, \<open>16ns/1ps\<close> and \<open>16/1\<close> resolve to the same preset, the last two
  through the regenerated key; \<open>3.15/0.2\<close> does not resolve, since the float of
  \<open>3.15\<close> is formatted as \<open>3.1\<close>; and \<open>xyz\<close> gives the message with the eleven keys,
  sorted.
\<close>

theorem preset_alias_resolution:
  "(normalize_preset s = Inr p \<longleftrightarrow>
      (lower (strip s), p) \<in> set PRESET_ALIASES
      \<or> (lower (strip s) \<notin> fst ` set PRESET_ALIASES
           \<and> (\<exists>n1 n2 rest. findall_numbers (lower (strip s)) = n1 # n2 # rest
                  \<and> (preset_key (float_of_str n1) (float_of_str n2), p) \<in> set PRESET_ALIASES)))
   \<and> ((\<forall>p'. normalize_preset s \<noteq> Inr p') \<longrightarrow>
          normalize_preset s = Inl (ValueError (unrecognized_preset s))
          \<and> configure_tdr_preset s configure_reply cfg_reply
               = ([], Inl (ValueError (unrecognized_preset s))))
   \<and> (lower (strip s) \<notin> fst ` set PRESET_ALIASES
          \<and> length (findall_numbers (lower (strip s))) < 2 \<longrightarrow>
          normalize_preset s = Inl (ValueError (unrecognized_preset s)))
   \<and> (normalize_preset s = Inr p \<longrightarrow>
          (\<exists>rest. fst (configure_tdr_preset s configure_reply cfg_reply)
                    = ConfigureTDRPresetRequest p # rest))
   \<and> ((k, q) \<in> set PRESET_ALIASES \<longrightarrow>
          (\<exists>a b. unrecognized_preset s = a @ k @ b)
          \<and> (\<exists>n1 n2. findall_numbers k = [n1, n2]
                 \<and> preset_key (float_of_str n1) (float_of_str n2) = k))
   \<and> normalize_preset ''16.0ns/1.0ps''
        = Inr TDR_CONFIGURATION_PRESET_PULSE_PERIOD_16P0_NS_SAMPLE_SPACING_1P0_PS
   \<and> normalize_preset ''16ns/1ps''
        = Inr TDR_CONFIGURATION_PRESET_PULSE_PERIOD_16P0_NS_SAMPLE_SPACING_1P0_PS
   \<and> normalize_preset ''16/1''
        = Inr TDR_CONFIGURATION_PRESET_PULSE_PERIOD_16P0_NS_SAMPLE_SPACING_1P0_PS
   \<and> map_of PRESET_ALIASES ''16ns/1ps'' = None
   \<and> map_of PRESET_ALIASES ''16/1'' = None
   \<and> map float_of_str (findall_numbers ''16ns/1ps'') = [Fin 16, Fin 1]
   \<and> map float_of_str (findall_numbers ''16/1'') = [Fin 16, Fin 1]
   \<and> preset_key (Fin 16) (Fin 1) = ''16.0ns/1.0ps''
   \<and> normalize_preset ''3.15/0.2'' = Inl (ValueError (unrecognized_preset ''3.15/0.2''))
   \<and> normalize_preset ''xyz'' =
       Inl (ValueError (''Unrecognized preset '' @ [CHR 0x27] @ ''xyz'' @ [CHR 0x27]
         @ ''. Try one of: 12.8ns/0.8ps, 128.0ns/8.0ps, 16.0ns/1.0ps, 16.0ns/100.0ps, 16.0ns/50.0ps, 160.0ns/10.0ps, 3.2ns/0.2ps, 32.0ns/2.0ps, 6.4ns/0.4ps, 64.0ns/4.0ps, 80.0ns/5.0ps''))
   \<and> configure_tdr_preset ''xyz'' configure_reply cfg_reply
       = ([], Inl (ValueError (unrecognized_preset ''xyz'')))"
proof -
  have g1: "normalize_preset s = Inr p \<longleftrightarrow>
      (lower (strip s), p) \<in> set PRESET_ALIASES
      \<or> (lower (strip s) \<notin> fst ` set PRESET_ALIASES
           \<and> (\<exists>n1 n2 rest. findall_numbers (lower (strip s)) = n1 # n2 # rest
                  \<and> (preset_key (float_of_str n1) (float_of_str n2), p) \<in> set PRESET_ALIASES))"
    by (rule normalize_preset_Inr_iff)
  have g2: "normalize_preset s = Inl (ValueError (unrecognized_preset s))
          \<and> configure_tdr_preset s configure_reply cfg_reply
               = ([], Inl (ValueError (unrecognized_preset s)))"
    if "\<forall>p'. normalize_preset s \<noteq> Inr p'"
  proof -
    have "normalize_preset s = Inl (ValueError (unrecognized_preset s))"
      using that normalize_preset_cases[of s] by blast
    then show ?thesis by (simp add: configure_tdr_preset_def)
  qed
  have g3: "normalize_preset s = Inl (ValueError (unrecognized_preset s))"
    if "lower (strip s) \<notin> fst ` set PRESET_ALIASES
          \<and> length (findall_numbers (lower (strip s))) < 2"
  proof -
    have "normalize_preset s \<noteq> Inr p'" for p'
      unfolding normalize_preset_Inr_iff using that by force
    then show ?thesis using normalize_preset_cases[of s] by blast
  qed
  have g4: "\<exists>rest. fst (configure_tdr_preset s configure_reply cfg_reply)
                    = ConfigureTDRPresetRequest p # rest"
    if "normalize_preset s = Inr p"
    using that by (simp add: configure_tdr_preset_def split: sum.splits)
  have g5: "(\<exists>a b. unrecognized_preset s = a @ k @ b)
          \<and> (\<exists>n1 n2. findall_numbers k = [n1, n2]
                 \<and> preset_key (float_of_str n1) (float_of_str n2) = k)"
    if "(k, q) \<in> set PRESET_ALIASES"
    using that message_lists_key keys_regenerate by blast
  have f: "float_of_str ''16'' = Fin 16" "float_of_str ''1'' = Fin 1"
    by (rule float_16, rule float_1)
  have k: "preset_key (Fin 16) (Fin 1) = ''16.0ns/1.0ps''"
    using key_16_1 by (simp only: f)
  have a: "normalize_preset ''16.0ns/1.0ps''
     = Inr TDR_CONFIGURATION_PRESET_PULSE_PERIOD_16P0_NS_SAMPLE_SPACING_1P0_PS"
    by (simp add: normalize_preset_def Let_def normal_forms lookups)
  have b: "normalize_preset ''16ns/1ps''
     = Inr TDR_CONFIGURATION_PRESET_PULSE_PERIOD_16P0_NS_SAMPLE_SPACING_1P0_PS"
    by (simp add: normalize_preset_def Let_def normal_forms lookups numbers_found key_16_1)
  have c: "normalize_preset ''16/1''
     = Inr TDR_CONFIGURATION_PRESET_PULSE_PERIOD_16P0_NS_SAMPLE_SPACING_1P0_PS"
    by (simp add: normalize_preset_def Let_def normal_forms lookups numbers_found key_16_1)
  have c': "normalize_preset ''3.15/0.2'' = Inl (ValueError (unrecognized_preset ''3.15/0.2''))"
    by (simp add: normalize_preset_def Let_def normal_forms lookups numbers_found key_3_15)
  have d: "normalize_preset ''xyz'' =
       Inl (ValueError (''Unrecognized preset '' @ [CHR 0x27] @ ''xyz'' @ [CHR 0x27]
         @ ''. Try one of: 12.8ns/0.8ps, 128.0ns/8.0ps, 16.0ns/1.0ps, 16.0ns/100.0ps, 16.0ns/50.0ps, 160.0ns/10.0ps, 3.2ns/0.2ps, 32.0ns/2.0ps, 6.4ns/0.4ps, 64.0ns/4.0ps, 80.0ns/5.0ps''))"
    unfolding normalize_xyz unrecognized_preset_def sorted_keys by simp
  have e: "configure_tdr_preset ''xyz'' configure_reply cfg_reply
       = ([], Inl (ValueError (unrecognized_preset ''xyz'')))"
    by (simp add: configure_tdr_preset_def normalize_xyz)
  have n: "map float_of_str (findall_numbers ''16ns/1ps'') = [Fin 16, Fin 1]"
    "map float_of_str (findall_numbers ''16/1'') = [Fin 16, Fin 1]"
    by (simp_all add: numbers_found f)
  show ?thesis
    using g1 g2 g3 g4 g5 a b c c' d e k n lookups(3,4) by blast
qed

theorem preset_alias_resolution_witness:
  "lower (strip ''3.2/0.2'') \<notin> fst ` set PRESET_ALIASES
   \<and> findall_numbers (lower (strip ''3.2/0.2'')) = [''3.2'', ''0.2'']
   \<and> (preset_key (float_of_str ''3.2'') (float_of_str ''0.2''),
        TDR_CONFIGURATION_PRESET_PULSE_PERIOD_3P2_NS_SAMPLE_SPACING_0P2_PS) \<in> set PRESET_ALIASES
   \<and> normalize_preset ''3.2/0.2''
        = Inr TDR_CONFIGURATION_PRESET_PULSE_PERIOD_3P2_NS_SAMPLE_SPACING_0P2_PS
   \<and> (\<exists>rest. fst (configure_tdr_preset ''3.2/0.2'' (Inr ()) (Inl RpcError))
          = ConfigureTDRPresetRequest
              TDR_CONFIGURATION_PRESET_PULSE_PERIOD_3P2_NS_SAMPLE_SPACING_0P2_PS # rest)
   \<and> lower (strip ''7'') \<notin> fst ` set PRESET_ALIASES
   \<and> length (findall_numbers (lower (strip ''7''))) < 2
   \<and> (\<forall>p. normalize_preset ''7'' \<noteq> Inr p)
   \<and> configure_tdr_preset ''7'' (Inr ()) (Inl RpcError)
        = ([], Inl (ValueError (unrecognized_preset ''7'')))
   \<and> (\<exists>a b. unrecognized_preset ''7'' = a @ ''3.2ns/0.2ps'' @ b)"
proof -
  let ?p = "TDR_CONFIGURATION_PRESET_PULSE_PERIOD_3P2_NS_SAMPLE_SPACING_0P2_PS"
  have h1: "lower (strip ''3.2/0.2'') \<notin> fst ` set PRESET_ALIASES"
    unfolding map_of_table_None[symmetric] normal_forms by (rule lookups)
  have h2: "findall_numbers (lower (strip ''3.2/0.2'')) = [''3.2'', ''0.2'']"
    unfolding normal_forms by (rule numbers_found)
  have h3: "(preset_key (float_of_str ''3.2'') (float_of_str ''0.2''), ?p) \<in> set PRESET_ALIASES"
    unfolding key_3_2_0_2 map_of_table[symmetric] by (rule lookups)
  have r: "normalize_preset ''3.2/0.2'' = Inr ?p"
    using preset_alias_resolution[of "''3.2/0.2''" ?p] h1 h2 h3 by blast
  have c: "\<exists>rest. fst (configure_tdr_preset ''3.2/0.2'' (Inr ()) (Inl RpcError))
          = ConfigureTDRPresetRequest ?p # rest"
    using preset_alias_resolution[of "''3.2/0.2''" ?p "Inr ()" "Inl RpcError"] r by blast
  have h4: "lower (strip ''7'') \<notin> fst ` set PRESET_ALIASES"
    unfolding map_of_table_None[symmetric] normal_forms by (rule lookups)
  have h5: "length (findall_numbers (lower (strip ''7''))) < 2"
    unfolding normal_forms numbers_found by simp
  have e: "normalize_preset ''7'' = Inl (ValueError (unrecognized_preset ''7''))"
    using preset_alias_resolution[of "''7''"] h4 h5 by blast
  then have n: "\<forall>p. normalize_preset ''7'' \<noteq> Inr p" by simp
  have f: "configure_tdr_preset ''7'' (Inr ()) (Inl RpcError)
        = ([], Inl (ValueError (unrecognized_preset ''7'')))"
    using preset_alias_resolution[of "''7''" _ "Inr ()" "Inl RpcError"] n by blast
  have k: "(''3.2ns/0.2ps'', ?p) \<in> set PRESET_ALIASES"
    unfolding map_of_table[symmetric] by (rule lookups)
  have m: "\<exists>a b. unrecognized_preset ''7'' = a @ ''3.2ns/0.2ps'' @ b"
    using preset_alias_resolution[of "''7''" _ _ _ "''3.2ns/0.2ps''" ?p] k by blast
  show ?thesis using h1 h2 h3 r c h4 h5 n f m by blast
qed

section \<open>Further properties\<close>

lemma np_searchsorted_before:
  assumes "xs \<noteq> []" and "q \<le> hd xs"
  shows "np_searchsorted (map Fin xs) (Fin q) = 0"
  using assms by (cases xs) (simp_all add: np_searchsorted_def np_less_def)

lemma np_searchsorted_after:
  assumes "sorted_wrt (<) xs" and "xs \<noteq> []" and "last xs < q"
  shows "np_searchsorted (map Fin xs) (Fin q) = length xs"
proof -
  have "\<forall>x\<in>set xs. x < q"
  proof
    fix x assume "x \<in> set xs"
    then obtain k where k: "k < length xs" "xs ! k = x" by (auto simp: in_set_conv_nth)
    have "xs ! k \<le> xs ! (length xs - 1)"
    proof (cases "k = length xs - 1")
      case True
      then show ?thesis by simp
    next
      case False
      then have "k < length xs - 1" "length xs - 1 < length xs"
        using k(1) by simp_all
      then show ?thesis
        using sorted_wrt_nth_less[OF assms(1), of k "length xs - 1"] by simp
    qed
    then show "x < q" using k assms(2,3) by (simp add: last_conv_nth)
  qed
  then have tw: "takeWhile (\<lambda>x. np_less x (Fin q)) (map Fin xs) = map Fin xs"
    by (simp add: takeWhile_eq_all_conv np_less_def)
  show ?thesis unfolding np_searchsorted_def tw by simp
qed

text \<open>
  The readout in linear scale, on a strictly ascending finite x-array and a finite
  y-array of the same length: at the first x and before it the readout is the first y,
  and after the last x it is the last y. No arithmetic is involved.
\<close>

theorem linear_readout:
  assumes "sorted_wrt (<) xs" and "xs \<noteq> []" and "length ys = length xs"
  shows "(q \<le> hd xs \<longrightarrow>
            y_at_x (Some (map Fin xs)) (Some (map Fin ys)) False (Fin q)
              = Inr (Some (Fin (hd ys))))
     \<and> (last xs < q \<longrightarrow>
            y_at_x (Some (map Fin xs)) (Some (map Fin ys)) False (Fin q)
              = Inr (Some (Fin (last ys))))"
proof (intro conjI impI)
  assume "q \<le> hd xs"
  then show "y_at_x (Some (map Fin xs)) (Some (map Fin ys)) False (Fin q)
              = Inr (Some (Fin (hd ys)))"
    using assms np_searchsorted_before[OF assms(2), of q]
    by (cases ys) (simp_all add: y_at_x_def)
next
  assume "last xs < q"
  then show "y_at_x (Some (map Fin xs)) (Some (map Fin ys)) False (Fin q)
              = Inr (Some (Fin (last ys)))"
    using assms np_searchsorted_after[OF assms(1,2), of q]
    by (cases "ys = []") (simp_all add: y_at_x_def last_map)
qed

theorem linear_readout_witness:
  "sorted_wrt (<) [0, 10 :: real] \<and> [0, 10 :: real] \<noteq> [] \<and> length [2, 3 :: real] = length [0, 10 :: real]
   \<and> (0 :: real) \<le> hd [0, 10]
   \<and> y_at_x (Some [Fin 0, Fin 10]) (Some [Fin 2, Fin 3]) False (Fin 0) = Inr (Some (Fin 2))
   \<and> last [0, 10 :: real] < 20
   \<and> y_at_x (Some [Fin 0, Fin 10]) (Some [Fin 2, Fin 3]) False (Fin 20) = Inr (Some (Fin 3))"
proof -
  have h: "sorted_wrt (<) [0, 10 :: real]" "[0, 10 :: real] \<noteq> []"
    "length [2, 3 :: real] = length [0, 10 :: real]"
    by simp_all
  have a: "(0 :: real) \<le> hd [0, 10]" "last [0, 10 :: real] < 20"
    by simp_all
  show ?thesis
    using linear_readout[OF h, of 0] linear_readout[OF h, of 20] h a by simp
qed

text \<open>A conversion from a mode to itself returns the array as it is.\<close>

theorem convert_same_mode: "convert_y_to xs m m r50 amp = xs"
  by (cases m) simp_all


text \<open>The queue never holds more than 10 messages, whatever is put on it.\<close>

theorem queue_bounded:
  assumes "length q \<le> maxsize"
  shows "length (put_dropping q item) \<le> maxsize \<and> maxsize = 10"
  using assms by (simp add: put_dropping_simp maxsize_def)

theorem queue_bounded_witness:
  "length ([] :: nat list) \<le> maxsize \<and> length (put_dropping [] (1::nat)) \<le> maxsize"
  using queue_bounded[of "[] :: nat list" 1] by (simp add: maxsize_def)

lemma tenth_sum_2: "fadd64 (Fin (3602879701896397 / 36028797018963968)) (Fin (3602879701896397 / 36028797018963968)) = Fin (3602879701896397 / 18014398509481984)"
  unfolding fadd64_def fadd.simps rounded.simps
proof (rule round64_eval[where e = "- 3" and m = 7205759403792794])
  show "round_half_even ((3602879701896397 / 36028797018963968 + 3602879701896397 / 36028797018963968) * pow2r (52 - - 3)) = 7205759403792794"
    by (rule round_half_even_nearest_even) (simp_all add: pow2r_def)
qed (simp_all add: pow2r_def)

lemma tenth_sum_3: "fadd64 (Fin (3602879701896397 / 18014398509481984)) (Fin (3602879701896397 / 36028797018963968)) = Fin (1351079888211149 / 4503599627370496)"
  unfolding fadd64_def fadd.simps rounded.simps
proof (rule round64_eval[where e = "- 2" and m = 5404319552844596])
  show "round_half_even ((3602879701896397 / 18014398509481984 + 3602879701896397 / 36028797018963968) * pow2r (52 - - 2)) = 5404319552844596"
    by (rule round_half_even_nearest_even) (simp_all add: pow2r_def)
qed (simp_all add: pow2r_def)

lemma tenth_sum_4: "fadd64 (Fin (1351079888211149 / 4503599627370496)) (Fin (3602879701896397 / 36028797018963968)) = Fin (3602879701896397 / 9007199254740992)"
  unfolding fadd64_def fadd.simps rounded.simps
proof (rule round64_eval[where e = "- 2" and m = 7205759403792794])
  show "round_half_even ((1351079888211149 / 4503599627370496 + 3602879701896397 / 36028797018963968) * pow2r (52 - - 2)) = 7205759403792794"
    by (rule round_half_even_nearest_even) (simp_all add: pow2r_def)
qed (simp_all add: pow2r_def)

lemma tenth_sum_5: "fadd64 (Fin (3602879701896397 / 9007199254740992)) (Fin (3602879701896397 / 36028797018963968)) = Fin (1 / 2)"
  unfolding fadd64_def fadd.simps rounded.simps
proof (rule round64_eval[where e = "- 1" and m = 4503599627370496])
  show "round_half_even ((3602879701896397 / 9007199254740992 + 3602879701896397 / 36028797018963968) * pow2r (52 - - 1)) = 4503599627370496"
    by (rule round_half_even_nearest_even) (simp_all add: pow2r_def)
qed (simp_all add: pow2r_def)

lemma tenth_sum_6: "fadd64 (Fin (1 / 2)) (Fin (3602879701896397 / 36028797018963968)) = Fin (5404319552844595 / 9007199254740992)"
  unfolding fadd64_def fadd.simps rounded.simps
proof (rule round64_eval[where e = "- 1" and m = 5404319552844595])
  show "round_half_even ((1 / 2 + 3602879701896397 / 36028797018963968) * pow2r (52 - - 1)) = 5404319552844595"
    by (rule round_half_even_between) (simp_all add: pow2r_def)
qed (simp_all add: pow2r_def)

lemma tenth_sum_7: "fadd64 (Fin (5404319552844595 / 9007199254740992)) (Fin (3602879701896397 / 36028797018963968)) = Fin (3152519739159347 / 4503599627370496)"
  unfolding fadd64_def fadd.simps rounded.simps
proof (rule round64_eval[where e = "- 1" and m = 6305039478318694])
  show "round_half_even ((5404319552844595 / 9007199254740992 + 3602879701896397 / 36028797018963968) * pow2r (52 - - 1)) = 6305039478318694"
    by (rule round_half_even_nearest_even) (simp_all add: pow2r_def)
qed (simp_all add: pow2r_def)

lemma tenth_sum_8: "fadd64 (Fin (3152519739159347 / 4503599627370496)) (Fin (3602879701896397 / 36028797018963968)) = Fin (7205759403792793 / 9007199254740992)"
  unfolding fadd64_def fadd.simps rounded.simps
proof (rule round64_eval[where e = "- 1" and m = 7205759403792793])
  show "round_half_even ((3152519739159347 / 4503599627370496 + 3602879701896397 / 36028797018963968) * pow2r (52 - - 1)) = 7205759403792793"
    by (rule round_half_even_between) (simp_all add: pow2r_def)
qed (simp_all add: pow2r_def)

lemma tenth_mean: "fdiv64 (Fin (7205759403792793 / 9007199254740992)) (Fin 8) = Fin (7205759403792793 / 72057594037927936)"
proof -
  have "fdiv (Fin (7205759403792793 / 9007199254740992)) (Fin 8) = Fin (7205759403792793 / 9007199254740992 / 8)"
    by simp
  moreover have "round64 (7205759403792793 / 9007199254740992 / 8) = Fin (7205759403792793 / 72057594037927936)"
  proof (rule round64_eval[where e = "- 4" and m = 7205759403792793])
    show "round_half_even (7205759403792793 / 9007199254740992 / 8 * pow2r (52 - - 4)) = 7205759403792793"
      by (rule round_half_even_between) (simp_all add: pow2r_def)
  qed (simp_all add: pow2r_def)
  ultimately show ?thesis by (simp only: fdiv64_def rounded.simps)
qed

text \<open>
  In float64, eight samples equal to the float of \<open>0.1\<close>, added in the order received
  and divided by 8 as lines 748 and 755 do, give the float below it.
\<close>

theorem float64_mean_of_eight_tenths:
  "float_of_str ''0.1'' = Fin (3602879701896397 / 36028797018963968)
   \<and> fdiv64 (foldl fadd64 (Fin (3602879701896397 / 36028797018963968)) [Fin (3602879701896397 / 36028797018963968), Fin (3602879701896397 / 36028797018963968), Fin (3602879701896397 / 36028797018963968), Fin (3602879701896397 / 36028797018963968), Fin (3602879701896397 / 36028797018963968), Fin (3602879701896397 / 36028797018963968), Fin (3602879701896397 / 36028797018963968)]) (Fin 8)
       = Fin (7205759403792793 / 72057594037927936)
   \<and> (7205759403792793 / 72057594037927936 :: real) \<noteq> 3602879701896397 / 36028797018963968"
proof -
  have "fdiv64 (foldl fadd64 (Fin (3602879701896397 / 36028797018963968)) [Fin (3602879701896397 / 36028797018963968), Fin (3602879701896397 / 36028797018963968), Fin (3602879701896397 / 36028797018963968), Fin (3602879701896397 / 36028797018963968), Fin (3602879701896397 / 36028797018963968), Fin (3602879701896397 / 36028797018963968), Fin (3602879701896397 / 36028797018963968)]) (Fin 8)
       = Fin (7205759403792793 / 72057594037927936)"
    by (simp only: foldl.simps tenth_sum_2 tenth_sum_3 tenth_sum_4 tenth_sum_5 tenth_sum_6 tenth_sum_7 tenth_sum_8 tenth_mean)
  then show ?thesis using float_0_1 by simp
qed

end
